theory Spec2Isabelle
  imports Main "HOL-Library.Sublist"
begin

section \<open>Python values, errors and built-ins\<close>

text \<open>
  The development embeds \<^verbatim>\<open>pyprismatic/params.py\<close>: the class \<^verbatim>\<open>Metadata\<close>, its field
  registry, its property accessors and its methods \<^verbatim>\<open>readParameters\<close>,
  \<^verbatim>\<open>writeParameters\<close> and \<^verbatim>\<open>go\<close>.

  A Python value is an integer (unbounded), a float, a string, a boolean, a tuple or a
  list. Strings are lists of characters with code points below 256. The float type is a
  parameter \<open>'f\<close>: the embedding never computes with floats, it only stores them, prints
  them and parses them, and these three operations of the Python runtime are taken as the
  record \<open>builtins\<close>.
\<close>

datatype pyerr =
  AttributeError | IndexError | TypeError | ValueError | UnboundLocalError | ExternalError

datatype 'f pyval =
  VInt int | VFloat 'f | VStr string | VBool bool
  | VTuple "'f pyval list" | VList "'f pyval list"

text \<open>
  \<open>float_lit\<close> is the value of a float literal of the source text (\<^verbatim>\<open>0.1\<close>),
  \<open>float_nan\<close> the value of \<^verbatim>\<open>float("NaN")\<close>, \<open>float_of_str\<close> is \<^verbatim>\<open>float(s)\<close> on a string
  (\<open>None\<close> when it raises \<^verbatim>\<open>ValueError\<close>), \<open>str_of_float\<close> is \<^verbatim>\<open>str(x)\<close> on a float and
  \<open>repr_of_str\<close> is \<^verbatim>\<open>repr(s)\<close> on a string (used when a tuple or a list is printed).
\<close>

record 'f builtins =
  float_lit :: "string \<Rightarrow> 'f"
  float_nan :: "'f"
  float_of_str :: "string \<Rightarrow> 'f option"
  str_of_float :: "'f \<Rightarrow> string"
  repr_of_str :: "string \<Rightarrow> string"

text \<open>
  A call either returns or raises; in both cases the state it leaves behind is kept,
  because the object it mutates outlives the exception.
\<close>

datatype 'a outcome = Return 'a | Raised pyerr 'a

definition and_then :: "'a outcome \<Rightarrow> ('a \<Rightarrow> 'a outcome) \<Rightarrow> 'a outcome" where
  "and_then m f = (case m of Return a \<Rightarrow> f a | Raised e a \<Rightarrow> Raised e a)"

fun final :: "'a outcome \<Rightarrow> 'a" where
  "final (Return a) = a"
| "final (Raised e a) = a"

fun returns :: "'a outcome \<Rightarrow> bool" where
  "returns (Return a) = True"
| "returns (Raised e a) = False"

subsection \<open>Strings\<close>

abbreviation NL :: char where "NL \<equiv> CHR 0x0A"
abbreviation CR :: char where "CR \<equiv> CHR 0x0D"

text \<open>\<^verbatim>\<open>sub in s\<close> on strings.\<close>

fun contains :: "string \<Rightarrow> string \<Rightarrow> bool" where
  "contains sub [] = (sub = [])"
| "contains sub (c # cs) = (prefix sub (c # cs) \<or> contains sub cs)"

text \<open>\<^verbatim>\<open>c.isspace()\<close> for a code point below 256.\<close>

definition is_space :: "char \<Rightarrow> bool" where
  "is_space c = (c \<in> set [CHR 0x09, CHR 0x0A, CHR 0x0B, CHR 0x0C, CHR 0x0D, CHR 0x1C,
     CHR 0x1D, CHR 0x1E, CHR 0x1F, CHR 0x20, CHR 0x85, CHR 0xA0])"

text \<open>\<^verbatim>\<open>s.strip()\<close>.\<close>

definition strip :: "string \<Rightarrow> string" where
  "strip s = rev (dropWhile is_space (rev (dropWhile is_space s)))"

text \<open>\<^verbatim>\<open>s.split()\<close>: the maximal runs of non-whitespace characters; \<open>acc\<close> is the run
  being read, reversed.\<close>

fun ws_tokens :: "string \<Rightarrow> string \<Rightarrow> string list" where
  "ws_tokens acc [] = (if acc = [] then [] else [rev acc])"
| "ws_tokens acc (c # cs) =
     (if is_space c then (if acc = [] then ws_tokens [] cs else rev acc # ws_tokens [] cs)
      else ws_tokens (c # acc) cs)"

definition split_ws :: "string \<Rightarrow> string list" where
  "split_ws s = ws_tokens [] s"

text \<open>\<^verbatim>\<open>s.split(sep)\<close> for a non-empty separator: cut at every occurrence of \<open>sep\<close>,
  found from the left and not overlapping.\<close>

function split_sep :: "string \<Rightarrow> string \<Rightarrow> string list" where
  "split_sep sep [] = [[]]"
| "split_sep sep (c # cs) =
     (if sep \<noteq> [] \<and> prefix sep (c # cs) then [] # split_sep sep (drop (length sep) (c # cs))
      else (case split_sep sep cs of [] \<Rightarrow> [[c]] | p # ps \<Rightarrow> (c # p) # ps))"
  by pat_completeness auto
termination
  by (relation "measure (\<lambda>(sep, s). length s)") auto

text \<open>The lines of a text as successive \<^verbatim>\<open>readline()\<close> calls return them: each line keeps
  its terminating newline, the last one has none when the text does not end in one.\<close>

fun lines_of :: "string \<Rightarrow> string list" where
  "lines_of [] = []"
| "lines_of (c # cs) =
     (if c = NL then [c] # lines_of cs
      else (case lines_of cs of [] \<Rightarrow> [[c]] | l # ls \<Rightarrow> (c # l) # ls))"

text \<open>Reading a file opened in text mode translates \<^verbatim>\<open>\r\n\<close> and a lone \<^verbatim>\<open>\r\<close> to
  \<^verbatim>\<open>\n\<close> (universal newlines).\<close>

fun universal_newlines :: "string \<Rightarrow> string" where
  "universal_newlines [] = []"
| "universal_newlines [c] = (if c = CR then [NL] else [c])"
| "universal_newlines (c # d # cs) =
     (if c = CR \<and> d = NL then NL # universal_newlines cs
      else if c = CR then NL # universal_newlines (d # cs)
      else c # universal_newlines (d # cs))"

text \<open>\<^verbatim>\<open>s.lower()\<close> on code points below 256.\<close>

definition lower_char :: "char \<Rightarrow> char" where
  "lower_char c = (let n = (of_char c :: nat) in
     if (65 \<le> n \<and> n \<le> 90) \<or> (192 \<le> n \<and> n \<le> 222 \<and> n \<noteq> 215) then char_of (n + 32) else c)"

definition lower :: "string \<Rightarrow> string" where
  "lower s = map lower_char s"

subsection \<open>Integers as text\<close>

definition digit_char :: "nat \<Rightarrow> char" where
  "digit_char d = ''0123456789'' ! d"

fun nat_str :: "nat \<Rightarrow> string" where
  "nat_str n = (if n < 10 then [digit_char n] else nat_str (n div 10) @ [digit_char (n mod 10)])"

declare nat_str.simps [simp del]

text \<open>\<^verbatim>\<open>str(n)\<close> on an integer.\<close>

definition int_str :: "int \<Rightarrow> string" where
  "int_str i = (if i < 0 then CHR ''-'' # nat_str (nat (- i)) else nat_str (nat i))"

definition digit_val :: "char \<Rightarrow> nat option" where
  "digit_val c = (let n = (of_char c :: nat) in if 48 \<le> n \<and> n \<le> 57 then Some (n - 48) else None)"

text \<open>The digits of an integer literal: groups of digits, single underscores allowed
  between digits only. \<open>acc\<close> is the value read so far, \<open>after_digit\<close> tells whether the
  previous character was a digit.\<close>

fun digits_val :: "nat \<Rightarrow> bool \<Rightarrow> string \<Rightarrow> nat option" where
  "digits_val acc after_digit [] = (if after_digit then Some acc else None)"
| "digits_val acc after_digit (c # cs) =
     (if c = CHR ''_'' then (if after_digit \<and> cs \<noteq> [] then digits_val acc False cs else None)
      else (case digit_val c of None \<Rightarrow> None | Some d \<Rightarrow> digits_val (10 * acc + d) True cs))"

text \<open>The characters that \<^verbatim>\<open>int\<close> drops around a literal: the ASCII white space and the two
  other spaces below 256. Unlike \<^verbatim>\<open>str.split\<close> it does not take the separators
  \<^verbatim>\<open>\x1c\<close> to \<^verbatim>\<open>\x1f\<close> for white space.\<close>

definition is_int_space :: "char \<Rightarrow> bool" where
  "is_int_space c = (c \<in> set [CHR 0x09, CHR 0x0A, CHR 0x0B, CHR 0x0C, CHR 0x0D, CHR 0x20,
     CHR 0x85, CHR 0xA0])"

definition int_strip :: "string \<Rightarrow> string" where
  "int_strip s = rev (dropWhile is_int_space (rev (dropWhile is_int_space s)))"

text \<open>\<^verbatim>\<open>int(s)\<close> on a string, base 10: surrounding white space is dropped, one sign is
  allowed; \<open>None\<close> is \<^verbatim>\<open>ValueError\<close>. The interpreter's optional limit on the number of
  digits of a conversion between \<^verbatim>\<open>int\<close> and \<^verbatim>\<open>str\<close> is taken to be switched off, here
  and in \<open>int_str\<close>.\<close>

definition int_of_str :: "string \<Rightarrow> int option" where
  "int_of_str s = (case int_strip s of
       [] \<Rightarrow> None
     | c # cs \<Rightarrow>
         if c = CHR ''-'' then map_option (\<lambda>n. - int n) (digits_val 0 False cs)
         else if c = CHR ''+'' then map_option int (digits_val 0 False cs)
         else map_option int (digits_val 0 False (c # cs)))"

subsection \<open>Printing a value\<close>

definition join_comma :: "string list \<Rightarrow> string" where
  "join_comma xs = concat (case xs of [] \<Rightarrow> [] | y # ys \<Rightarrow> y # map (\<lambda>x. '', '' @ x) ys)"

text \<open>\<^verbatim>\<open>str(v)\<close> when \<open>r\<close> is false and \<^verbatim>\<open>repr(v)\<close> when it is true; the two differ on
  strings only. A container prints the \<^verbatim>\<open>repr\<close> of its elements.\<close>

fun py_fmt :: "'f builtins \<Rightarrow> bool \<Rightarrow> 'f pyval \<Rightarrow> string" where
  "py_fmt bi r (VInt i) = int_str i"
| "py_fmt bi r (VFloat x) = str_of_float bi x"
| "py_fmt bi r (VStr s) = (if r then repr_of_str bi s else s)"
| "py_fmt bi r (VBool b) = (if b then ''True'' else ''False'')"
| "py_fmt bi r (VTuple xs) =
     ''('' @ join_comma (map (py_fmt bi True) xs) @ (if length xs = 1 then '','' else '''') @ '')''"
| "py_fmt bi r (VList xs) = ''['' @ join_comma (map (py_fmt bi True) xs) @ '']''"

definition py_str :: "'f builtins \<Rightarrow> 'f pyval \<Rightarrow> string" where
  "py_str bi v = py_fmt bi False v"

text \<open>\<^verbatim>\<open>vals[i]\<close> for a non-negative literal index.\<close>

fun py_index :: "'f pyval \<Rightarrow> nat \<Rightarrow> pyerr + 'f pyval" where
  "py_index (VTuple xs) i = (if i < length xs then Inr (xs ! i) else Inl IndexError)"
| "py_index (VList xs) i = (if i < length xs then Inr (xs ! i) else Inl IndexError)"
| "py_index (VStr s) i = (if i < length s then Inr (VStr [s ! i]) else Inl IndexError)"
| "py_index (VInt n) i = Inl TypeError"
| "py_index (VFloat x) i = Inl TypeError"
| "py_index (VBool b) i = Inl TypeError"

text \<open>\<^verbatim>\<open>v.lower()\<close>: only strings have the method.\<close>

fun py_lower :: "'f pyval \<Rightarrow> pyerr + 'f pyval" where
  "py_lower (VStr s) = Inr (VStr (lower s))"
| "py_lower (VInt n) = Inl AttributeError"
| "py_lower (VFloat x) = Inl AttributeError"
| "py_lower (VBool b) = Inl AttributeError"
| "py_lower (VTuple xs) = Inl AttributeError"
| "py_lower (VList xs) = Inl AttributeError"

section \<open>The environment and the object\<close>

text \<open>
  The environment is what the methods reach outside the object: the files that can be
  opened for reading (\<open>open_read\<close> says, for each argument of \<^verbatim>\<open>open(filename, "r")\<close>,
  whether the call gives a file with some text, raises \<^verbatim>\<open>IOError\<close> or raises something
  else), the names that can be opened for writing, the external engine
  \<^verbatim>\<open>pyprismatic.core.go\<close> (which returns or raises) and a trace of what the methods did
  to the outside: the lines printed, the files opened, the engine calls.

  The object is its instance dictionary, a map from attribute names to values. The
  properties of the class (\<^verbatim>\<open>filenameAtoms\<close> and the ten composite ones) are not entries
  of the dictionary: reading or assigning one of them runs its getter or setter. A call of
  \<^verbatim>\<open>readParameters\<close>, \<^verbatim>\<open>writeParameters\<close> or \<^verbatim>\<open>go\<close> in the model is a call of the method of
  the class; the one method that the class itself calls on \<^verbatim>\<open>self\<close>, \<^verbatim>\<open>_setCellDims\<close>, is
  looked up through the object as Python does.
\<close>

datatype fopen = Opened string | IOFail | OpenRaises pyerr

datatype 'f event =
  Print string | OpenRead "'f pyval" | OpenWrite string | EngineCall "'f pyval list"

record 'f world =
  open_read :: "'f pyval \<Rightarrow> fopen"
  open_write :: "string \<Rightarrow> bool"
  engine :: "'f pyval list \<Rightarrow> pyerr option"
  trace :: "'f event list"

type_synonym 'f obj = "string \<rightharpoonup> 'f pyval"

type_synonym 'f cfg = "'f world \<times> 'f obj"

definition emit :: "'f event \<Rightarrow> 'f world \<Rightarrow> 'f world" where
  "emit ev w = w\<lparr>trace := trace w @ [ev]\<rparr>"

definition lift_obj :: "('f obj \<Rightarrow> 'f obj outcome) \<Rightarrow> 'f cfg \<Rightarrow> 'f cfg outcome" where
  "lift_obj f c = (case c of (w, s) \<Rightarrow>
     (case f s of Return s' \<Rightarrow> Return (w, s') | Raised e s' \<Rightarrow> Raised e (w, s')))"


section \<open>The field registry\<close>

text \<open>The class-level lists \<^verbatim>\<open>Metadata.fields\<close> (the canonical order, which is the order
  of the engine's positional parameters), \<^verbatim>\<open>str_fields\<close>, \<^verbatim>\<open>int_fields\<close> and
  \<^verbatim>\<open>float_fields\<close>.\<close>

definition fields :: "string list" where
  "fields =
    [''interpolationFactorX'', ''interpolationFactorY'', ''filenameAtoms'',
     ''filenameOutput'', ''realspacePixelSizeX'', ''realspacePixelSizeY'', ''potBound'',
     ''numFP'', ''sliceThickness'', ''zSampling'', ''numSlices'', ''zStart'', ''cellDimX'',
     ''cellDimY'', ''cellDimZ'', ''tileX'', ''tileY'', ''tileZ'', ''E0'', ''alphaBeamMax'',
     ''numGPUs'', ''numStreamsPerGPU'', ''numThreads'', ''batchSizeTargetCPU'',
     ''batchSizeTargetGPU'', ''earlyCPUStopCount'', ''probeStepX'', ''probeStepY'',
     ''probeDefocus'', ''probeDefocus_min'', ''probeDefocus_max'', ''probeDefocus_step'',
     ''probeDefocus_sigma'', ''C3'', ''C5'', ''aberrations_file'', ''probeSemiangle'',
     ''detectorAngleStep'', ''probeXtilt'', ''probeYtilt'', ''minXtilt'', ''maxXtilt'',
     ''minYtilt'', ''maxYtilt'', ''minRtilt'', ''maxRtilt'', ''xTiltOffset'',
     ''yTiltOffset'', ''xTiltStep'', ''yTiltStep'', ''scanWindowXMin'', ''scanWindowXMax'',
     ''scanWindowYMin'', ''scanWindowYMax'', ''scanWindowXMin_r'', ''scanWindowXMax_r'',
     ''scanWindowYMin_r'', ''scanWindowYMax_r'', ''probes_file'', ''randomSeed'',
     ''algorithm'', ''potential3D'', ''includeThermalEffects'', ''includeOccupancy'',
     ''alsoDoCPUWork'', ''save2DOutput'', ''save3DOutput'', ''save4DOutput'',
     ''integrationAngleMin'', ''integrationAngleMax'', ''transferMode'', ''saveDPC_CoM'',
     ''savePotentialSlices'', ''saveSMatrix'', ''crop4DOutput'', ''crop4Damax'',
     ''nyquistSampling'', ''importPotential'', ''importSMatrix'', ''saveProbe'',
     ''saveComplexOutputWave'', ''matrixRefocus'', ''importFile'', ''importPath'',
     ''maxFileSize'']"

definition str_fields :: "string list" where
  "str_fields =
    [''algorithm'', ''transferMode'', ''aberrations_file'', ''probes_file'', ''importFile'',
     ''importPath'']"

definition int_fields :: "string list" where
  "int_fields =
    [''interpolationFactorX'', ''interpolationFactorY'', ''tileX'', ''tileY'', ''tileZ'',
     ''numFP'', ''numGPUs'', ''numStreamsPerGPU'', ''numThreads'', ''batchSizeTargetCPU'',
     ''batchSizeTargetGPU'', ''batchSizeCPU'', ''batchSizeGPU'', ''numSlices'',
     ''zSampling'', ''maxFileSize'']"

definition float_fields :: "string list" where
  "float_fields =
    [''realspacePixelSizeX'', ''realspacePixelSizeY'', ''potBound'', ''sliceThickness'',
     ''E0'', ''alphaBeamMax'', ''earlyCPUStopCount'', ''probeStepX'', ''probeStepY'',
     ''probeDefocus'', ''probeDefocus_min'', ''probeDefocus_max'', ''probeDefocus_step'',
     ''probeDefocus_sigma'', ''C3'', ''C5'', ''probeSemiangle'', ''detectorAngleStep'',
     ''probeXtilt'', ''probeYtilt'', ''minXtilt'', ''maxXtilt'', ''minYtilt'', ''maxYtilt'',
     ''minRtilt'', ''maxRtilt'', ''xTiltOffset'', ''yTiltOffset'', ''xTiltStep'',
     ''yTiltStep'', ''scanWindowXMin'', ''scanWindowXMax'', ''scanWindowYMin'',
     ''scanWindowYMax'', ''scanWindowXMin_r'', ''scanWindowXMax_r'', ''scanWindowYMin_r'',
     ''scanWindowYMax_r'', ''integrationAngleMin'', ''integrationAngleMax'', ''zStart'',
     ''crop4Damax'']"


text \<open>The assignments of \<^verbatim>\<open>__init__\<close> before the overrides, in the order of the source.
  \<open>seed\<close> is the integer that \<^verbatim>\<open>np.random.randint(0, 999999)\<close> draws.\<close>

definition init_assignments :: "'f builtins \<Rightarrow> int \<Rightarrow> (string \<times> 'f pyval) list" where
  "init_assignments bi seed =
    [
     (''interpolationFactorX'', VInt 4),
     (''interpolationFactorY'', VInt 4),
     (''filenameAtoms'', VStr ''''),
     (''filenameOutput'', VStr ''output.h5''),
     (''realspacePixelSizeX'', VFloat (float_lit bi ''0.1'')),
     (''realspacePixelSizeY'', VFloat (float_lit bi ''0.1'')),
     (''potBound'', VFloat (float_lit bi ''3.0'')),
     (''numFP'', VInt 1),
     (''sliceThickness'', VFloat (float_lit bi ''2.0'')),
     (''zSampling'', VInt 16),
     (''numSlices'', VInt 0),
     (''zStart'', VFloat (float_lit bi ''0.0'')),
     (''cellDimX'', VFloat (float_lit bi ''20.0'')),
     (''cellDimY'', VFloat (float_lit bi ''20.0'')),
     (''cellDimZ'', VFloat (float_lit bi ''20.0'')),
     (''tileX'', VInt 1),
     (''tileY'', VInt 1),
     (''tileZ'', VInt 1),
     (''E0'', VInt 80),
     (''alphaBeamMax'', VInt 24),
     (''numGPUs'', VInt 4),
     (''numStreamsPerGPU'', VInt 3),
     (''numThreads'', VInt 12),
     (''batchSizeTargetCPU'', VInt 1),
     (''batchSizeTargetGPU'', VInt 1),
     (''batchSizeCPU'', VInt 1),
     (''batchSizeGPU'', VInt 1),
     (''earlyCPUStopCount'', VInt 100),
     (''probeStepX'', VFloat (float_lit bi ''0.25'')),
     (''probeStepY'', VFloat (float_lit bi ''0.25'')),
     (''probeDefocus'', VFloat (float_nan bi)),
     (''probeDefocus_min'', VFloat (float_lit bi ''0.0'')),
     (''probeDefocus_max'', VFloat (float_lit bi ''0.0'')),
     (''probeDefocus_step'', VFloat (float_lit bi ''0.0'')),
     (''probeDefocus_sigma'', VFloat (float_lit bi ''0.0'')),
     (''C3'', VFloat (float_nan bi)),
     (''C5'', VFloat (float_nan bi)),
     (''aberrations_file'', VStr ''''),
     (''probeSemiangle'', VFloat (float_lit bi ''20.0'')),
     (''detectorAngleStep'', VFloat (float_lit bi ''1.0'')),
     (''probeXtilt'', VFloat (float_lit bi ''0.0'')),
     (''probeYtilt'', VFloat (float_lit bi ''0.0'')),
     (''minXtilt'', VFloat (float_lit bi ''0.0'')),
     (''maxXtilt'', VFloat (float_lit bi ''0.0'')),
     (''minYtilt'', VFloat (float_lit bi ''0.0'')),
     (''maxYtilt'', VFloat (float_lit bi ''0.0'')),
     (''minRtilt'', VFloat (float_lit bi ''0.0'')),
     (''maxRtilt'', VFloat (float_lit bi ''0.0'')),
     (''xTiltOffset'', VFloat (float_lit bi ''0.0'')),
     (''yTiltOffset'', VFloat (float_lit bi ''0.0'')),
     (''xTiltStep'', VFloat (float_lit bi ''1.0'')),
     (''yTiltStep'', VFloat (float_lit bi ''1.0'')),
     (''scanWindowXMin'', VFloat (float_lit bi ''0.0'')),
     (''scanWindowXMax'', VFloat (float_lit bi ''0.99999'')),
     (''scanWindowYMin'', VFloat (float_lit bi ''0.0'')),
     (''scanWindowYMax'', VFloat (float_lit bi ''0.99999'')),
     (''scanWindowXMin_r'', VFloat (float_lit bi ''0.0'')),
     (''scanWindowXMax_r'', VFloat (float_lit bi ''0.0'')),
     (''scanWindowYMin_r'', VFloat (float_lit bi ''0.0'')),
     (''scanWindowYMax_r'', VFloat (float_lit bi ''0.0'')),
     (''probes_file'', VStr ''''),
     (''randomSeed'', VInt seed),
     (''algorithm'', VStr ''prism''),
     (''potential3D'', VBool True),
     (''includeThermalEffects'', VBool True),
     (''includeOccupancy'', VBool True),
     (''alsoDoCPUWork'', VBool True),
     (''save2DOutput'', VBool False),
     (''integrationAngleMin'', VInt 0),
     (''integrationAngleMax'', VFloat (float_lit bi ''1.0'')),
     (''save3DOutput'', VBool True),
     (''save4DOutput'', VBool False),
     (''crop4DOutput'', VBool False),
     (''crop4Damax'', VFloat (float_lit bi ''100.0'')),
     (''saveDPC_CoM'', VBool False),
     (''savePotentialSlices'', VBool False),
     (''saveSMatrix'', VBool False),
     (''nyquistSampling'', VBool False),
     (''importPotential'', VBool False),
     (''importSMatrix'', VBool False),
     (''saveComplexOutputWave'', VBool False),
     (''saveProbe'', VBool False),
     (''maxFileSize'', VInt (2 * 10 ^ 9)),
     (''matrixRefocus'', VBool False),
     (''importFile'', VStr ''''),
     (''importPath'', VStr ''''),
     (''transferMode'', VStr ''auto'')]"

section \<open>Attributes, properties and construction\<close>

subsection \<open>Plain attributes\<close>

text \<open>\<^verbatim>\<open>self.name\<close> for a name that is no property.\<close>

definition attr :: "'f obj \<Rightarrow> string \<Rightarrow> pyerr + 'f pyval" where
  "attr s n = (case s n of None \<Rightarrow> Inl AttributeError | Some v \<Rightarrow> Inr v)"

text \<open>\<^verbatim>\<open>self.name = v\<close> for a name that is no property.\<close>

definition store :: "string \<Rightarrow> 'f pyval \<Rightarrow> 'f obj \<Rightarrow> 'f obj outcome" where
  "store n v s = Return (s(n \<mapsto> v))"

text \<open>\<^verbatim>\<open>self.name = vals[i]\<close>: the index is evaluated first, and when it raises nothing is
  assigned.\<close>

definition store_item :: "string \<Rightarrow> 'f pyval \<Rightarrow> nat \<Rightarrow> 'f obj \<Rightarrow> 'f obj outcome" where
  "store_item n vals i s =
     (case py_index vals i of Inl e \<Rightarrow> Raised e s | Inr v \<Rightarrow> Return (s(n \<mapsto> v)))"

text \<open>\<^verbatim>\<open>return self.a, self.b\<close> and \<^verbatim>\<open>return self.a, self.b, self.c\<close>.\<close>

definition pair_of :: "'f obj \<Rightarrow> string \<Rightarrow> string \<Rightarrow> pyerr + 'f pyval" where
  "pair_of s a b =
     (case s a of None \<Rightarrow> Inl AttributeError
      | Some x \<Rightarrow> (case s b of None \<Rightarrow> Inl AttributeError | Some y \<Rightarrow> Inr (VTuple [x, y])))"

definition triple_of :: "'f obj \<Rightarrow> string \<Rightarrow> string \<Rightarrow> string \<Rightarrow> pyerr + 'f pyval" where
  "triple_of s a b c =
     (case s a of None \<Rightarrow> Inl AttributeError
      | Some x \<Rightarrow> (case s b of None \<Rightarrow> Inl AttributeError
      | Some y \<Rightarrow> (case s c of None \<Rightarrow> Inl AttributeError | Some z \<Rightarrow> Inr (VTuple [x, y, z]))))"

subsection \<open>The composite properties\<close>

definition interpolationFactor_get :: "'f obj \<Rightarrow> pyerr + 'f pyval" where
  "interpolationFactor_get s = pair_of s ''interpolationFactorX'' ''interpolationFactorY''"

definition interpolationFactor_set :: "'f pyval \<Rightarrow> 'f obj \<Rightarrow> 'f obj outcome" where
  "interpolationFactor_set val s =
     and_then (store ''interpolationFactorX'' val s) (store ''interpolationFactorY'' val)"

definition realspacePixelSize_get :: "'f obj \<Rightarrow> pyerr + 'f pyval" where
  "realspacePixelSize_get s = pair_of s ''realspacePixelSizeX'' ''realspacePixelSizeY''"

definition realspacePixelSize_set :: "'f pyval \<Rightarrow> 'f obj \<Rightarrow> 'f obj outcome" where
  "realspacePixelSize_set val s =
     and_then (store ''realspacePixelSizeX'' val s) (store ''realspacePixelSizeY'' val)"

definition cellDim_get :: "'f obj \<Rightarrow> pyerr + 'f pyval" where
  "cellDim_get s = triple_of s ''cellDimX'' ''cellDimY'' ''cellDimZ''"

definition cellDim_set :: "'f pyval \<Rightarrow> 'f obj \<Rightarrow> 'f obj outcome" where
  "cellDim_set vals s =
     and_then (and_then (store_item ''cellDimX'' vals 0 s) (store_item ''cellDimY'' vals 1))
       (store_item ''cellDimZ'' vals 2)"

definition tile_get :: "'f obj \<Rightarrow> pyerr + 'f pyval" where
  "tile_get s = triple_of s ''tileX'' ''tileY'' ''tileZ''"

definition tile_set :: "'f pyval \<Rightarrow> 'f obj \<Rightarrow> 'f obj outcome" where
  "tile_set vals s =
     and_then (and_then (store_item ''tileX'' vals 0 s) (store_item ''tileY'' vals 1))
       (store_item ''tileZ'' vals 2)"

definition probeStep_get :: "'f obj \<Rightarrow> pyerr + 'f pyval" where
  "probeStep_get s = pair_of s ''probeStepX'' ''probeStepY''"

definition probeStep_set :: "'f pyval \<Rightarrow> 'f obj \<Rightarrow> 'f obj outcome" where
  "probeStep_set val s = and_then (store ''probeStepX'' val s) (store ''probeStepY'' val)"

definition probetilt_get :: "'f obj \<Rightarrow> pyerr + 'f pyval" where
  "probetilt_get s = pair_of s ''probeXtilt'' ''probeYtilt''"

definition probetilt_set :: "'f pyval \<Rightarrow> 'f obj \<Rightarrow> 'f obj outcome" where
  "probetilt_set val s = and_then (store ''probeXtilt'' val s) (store ''probeYtilt'' val)"

definition scanWindowX_get :: "'f obj \<Rightarrow> pyerr + 'f pyval" where
  "scanWindowX_get s = pair_of s ''scanWindowXMin'' ''scanWindowXMax''"

definition scanWindowX_set :: "'f pyval \<Rightarrow> 'f obj \<Rightarrow> 'f obj outcome" where
  "scanWindowX_set vals s =
     and_then (store_item ''scanWindowXMin'' vals 0 s) (store_item ''scanWindowXMax'' vals 1)"

definition scanWindowY_get :: "'f obj \<Rightarrow> pyerr + 'f pyval" where
  "scanWindowY_get s = pair_of s ''scanWindowYMin'' ''scanWindowYMax''"

definition scanWindowY_set :: "'f pyval \<Rightarrow> 'f obj \<Rightarrow> 'f obj outcome" where
  "scanWindowY_set vals s =
     and_then (store_item ''scanWindowYMin'' vals 0 s) (store_item ''scanWindowYMax'' vals 1)"

definition scanWindowX_r_get :: "'f obj \<Rightarrow> pyerr + 'f pyval" where
  "scanWindowX_r_get s = pair_of s ''scanWindowXMin_r'' ''scanWindowXMax_r''"

definition scanWindowX_r_set :: "'f pyval \<Rightarrow> 'f obj \<Rightarrow> 'f obj outcome" where
  "scanWindowX_r_set vals s =
     and_then (store_item ''scanWindowXMin_r'' vals 0 s) (store_item ''scanWindowXMax_r'' vals 1)"

definition scanWindowY_r_get :: "'f obj \<Rightarrow> pyerr + 'f pyval" where
  "scanWindowY_r_get s = pair_of s ''scanWindowYMin_r'' ''scanWindowYMax_r''"

definition scanWindowY_r_set :: "'f pyval \<Rightarrow> 'f obj \<Rightarrow> 'f obj outcome" where
  "scanWindowY_r_set vals s =
     and_then (store_item ''scanWindowYMin_r'' vals 0 s) (store_item ''scanWindowYMax_r'' vals 1)"

subsection \<open>The atoms file\<close>

text \<open>The parsing step of \<^verbatim>\<open>_setCellDims\<close>: drop one line, split the next at whitespace,
  turn every token into a float and unpack the list into three values. A token that
  \<^verbatim>\<open>float\<close> rejects and a list of any other length both raise \<^verbatim>\<open>ValueError\<close> (\<open>None\<close>) before
  anything is assigned. A missing second line reads as the empty string.\<close>

definition parse_cell_dims :: "'f builtins \<Rightarrow> string \<Rightarrow> ('f \<times> 'f \<times> 'f) option" where
  "parse_cell_dims bi body =
     (let second = (case lines_of (universal_newlines body) of l1 # l2 # ls \<Rightarrow> l2 | _ \<Rightarrow> [])
      in case those (map (float_of_str bi) (split_ws second)) of
           Some [x, y, z] \<Rightarrow> Some (x, y, z)
         | _ \<Rightarrow> None)"

text \<open>\<^verbatim>\<open>_setCellDims\<close>: open the file; when that raises \<^verbatim>\<open>IOError\<close>, print and return.
  Otherwise parse the second line and assign the three cell dimensions in the order X, Y,
  Z.\<close>

definition setCellDims :: "'f builtins \<Rightarrow> 'f pyval \<Rightarrow> 'f cfg \<Rightarrow> 'f cfg outcome" where
  "setCellDims bi filename c = (case c of (w, s) \<Rightarrow>
     (let w1 = emit (OpenRead filename) w in
      case open_read w filename of
        IOFail \<Rightarrow>
          Return (emit (Print (''Could not set cell dimensions from file '' @ py_str bi filename)) w1, s)
      | OpenRaises e \<Rightarrow> Raised e (w1, s)
      | Opened body \<Rightarrow>
          (case parse_cell_dims bi body of
             None \<Rightarrow> Raised ValueError (w1, s)
           | Some (x, y, z) \<Rightarrow>
               Return (w1, s(''cellDimX'' \<mapsto> VFloat x, ''cellDimY'' \<mapsto> VFloat y,
                            ''cellDimZ'' \<mapsto> VFloat z)))))"

text \<open>The property \<^verbatim>\<open>filenameAtoms\<close>. The getter reads the attribute
  \<^verbatim>\<open>_filenameAtoms\<close>; the setter does nothing at all for the empty string and otherwise
  stores the value and then calls \<^verbatim>\<open>self._setCellDims\<close>. That name is looked up through the
  object: an entry \<^verbatim>\<open>_setCellDims\<close> of the instance dictionary hides the method, and since
  no value of the model can be called, the call then raises \<^verbatim>\<open>TypeError\<close>.\<close>

definition filenameAtoms_get :: "'f obj \<Rightarrow> pyerr + 'f pyval" where
  "filenameAtoms_get s = attr s ''_filenameAtoms''"

definition filenameAtoms_set :: "'f builtins \<Rightarrow> 'f pyval \<Rightarrow> 'f cfg \<Rightarrow> 'f cfg outcome" where
  "filenameAtoms_set bi filenameAtoms c = (case c of (w, s) \<Rightarrow>
     if filenameAtoms \<noteq> VStr '''' then
       (let s1 = s(''_filenameAtoms'' \<mapsto> filenameAtoms) in
        case s1 ''_setCellDims'' of
          Some v \<Rightarrow> Raised TypeError (w, s1)
        | None \<Rightarrow> setCellDims bi filenameAtoms (w, s1))
     else Return (w, s))"

subsection \<open>Attribute access by name\<close>

text \<open>\<^verbatim>\<open>getattr(self, name)\<close> and \<^verbatim>\<open>setattr(self, name, value)\<close>: a property runs its
  accessor, any other name reads or writes the instance dictionary. Three names of every
  object cannot be assigned a value of the model: \<^verbatim>\<open>__class__\<close> takes a class and
  \<^verbatim>\<open>__dict__\<close> a dictionary (\<^verbatim>\<open>TypeError\<close> otherwise), and \<^verbatim>\<open>__weakref__\<close> is not writable
  (\<^verbatim>\<open>AttributeError\<close>). \<open>getattr_py\<close> is used on the names of \<^verbatim>\<open>Metadata.fields\<close> only.\<close>

definition getattr_py :: "'f obj \<Rightarrow> string \<Rightarrow> pyerr + 'f pyval" where
  "getattr_py s n =
     (if n = ''filenameAtoms'' then filenameAtoms_get s
      else if n = ''interpolationFactor'' then interpolationFactor_get s
      else if n = ''realspacePixelSize'' then realspacePixelSize_get s
      else if n = ''cellDim'' then cellDim_get s
      else if n = ''tile'' then tile_get s
      else if n = ''probeStep'' then probeStep_get s
      else if n = ''probetilt'' then probetilt_get s
      else if n = ''scanWindowX'' then scanWindowX_get s
      else if n = ''scanWindowY'' then scanWindowY_get s
      else if n = ''scanWindowX_r'' then scanWindowX_r_get s
      else if n = ''scanWindowY_r'' then scanWindowY_r_get s
      else attr s n)"

definition setattr_py :: "'f builtins \<Rightarrow> string \<Rightarrow> 'f pyval \<Rightarrow> 'f cfg \<Rightarrow> 'f cfg outcome" where
  "setattr_py bi n v c =
     (if n = ''filenameAtoms'' then filenameAtoms_set bi v c
      else if n = ''interpolationFactor'' then lift_obj (interpolationFactor_set v) c
      else if n = ''realspacePixelSize'' then lift_obj (realspacePixelSize_set v) c
      else if n = ''cellDim'' then lift_obj (cellDim_set v) c
      else if n = ''tile'' then lift_obj (tile_set v) c
      else if n = ''probeStep'' then lift_obj (probeStep_set v) c
      else if n = ''probetilt'' then lift_obj (probetilt_set v) c
      else if n = ''scanWindowX'' then lift_obj (scanWindowX_set v) c
      else if n = ''scanWindowY'' then lift_obj (scanWindowY_set v) c
      else if n = ''scanWindowX_r'' then lift_obj (scanWindowX_r_set v) c
      else if n = ''scanWindowY_r'' then lift_obj (scanWindowY_r_set v) c
      else if n = ''__class__'' \<or> n = ''__dict__'' then Raised TypeError c
      else if n = ''__weakref__'' then Raised AttributeError c
      else lift_obj (store n v) c)"

subsection \<open>Construction\<close>

text \<open>\<^verbatim>\<open>__init__(self, *args, **kwargs)\<close>. A keyword argument named \<^verbatim>\<open>self\<close> collides with
  the first parameter: the call raises \<^verbatim>\<open>TypeError\<close> before the body runs, and nothing has
  been assigned. Otherwise every default is assigned through the attribute protocol, so
  the assignment \<^verbatim>\<open>self.filenameAtoms = ""\<close> runs the property setter. Then the keyword
  arguments are taken in order: a key outside \<^verbatim>\<open>Metadata.fields\<close> prints a line, any other
  is assigned. Positional arguments are accepted and never looked at.\<close>

fun assign_all :: "'f builtins \<Rightarrow> (string \<times> 'f pyval) list \<Rightarrow> 'f cfg \<Rightarrow> 'f cfg outcome" where
  "assign_all bi [] c = Return c"
| "assign_all bi ((k, v) # kvs) c = and_then (setattr_py bi k v c) (assign_all bi kvs)"

definition invalid_msg :: "string \<Rightarrow> string" where
  "invalid_msg k = ''Invalid metaparameter '' @ [CHR 0x22] @ k @ [CHR 0x22] @ '' provided''"

fun apply_kwargs :: "'f builtins \<Rightarrow> (string \<times> 'f pyval) list \<Rightarrow> 'f cfg \<Rightarrow> 'f cfg outcome" where
  "apply_kwargs bi [] c = Return c"
| "apply_kwargs bi ((k, v) # kvs) c =
     (if k \<notin> set fields then apply_kwargs bi kvs (emit (Print (invalid_msg k)) (fst c), snd c)
      else and_then (setattr_py bi k v c) (apply_kwargs bi kvs))"

definition init :: "'f builtins \<Rightarrow> int \<Rightarrow> (string \<times> 'f pyval) list \<Rightarrow> 'f world \<Rightarrow> 'f cfg outcome" where
  "init bi seed kwargs w =
     (if ''self'' \<in> fst ` set kwargs then Raised TypeError (w, Map.empty)
      else and_then (assign_all bi (init_assignments bi seed) (w, Map.empty))
             (apply_kwargs bi kwargs))"

section \<open>The methods\<close>

subsection \<open>readParameters\<close>

text \<open>One turn of the loop of \<^verbatim>\<open>readParameters\<close>: the line is cut at \<^verbatim>\<open>" = "\<close> and must give
  exactly two parts (unpacking anything else raises \<^verbatim>\<open>ValueError\<close>); the first part picks
  the conversion of the second by the list it belongs to, and the result is assigned with
  \<^verbatim>\<open>setattr\<close>. \<^verbatim>\<open>bool(value)\<close> on a string is true exactly when the string is not empty.\<close>

definition read_line :: "'f builtins \<Rightarrow> string \<Rightarrow> 'f cfg \<Rightarrow> 'f cfg outcome" where
  "read_line bi line c =
     (case split_sep '' = '' line of
        [field, value] \<Rightarrow>
          if field \<in> set str_fields then setattr_py bi field (VStr value) c
          else if field \<in> set int_fields then
            (case int_of_str value of
               None \<Rightarrow> Raised ValueError c
             | Some n \<Rightarrow> setattr_py bi field (VInt n) c)
          else if field \<in> set float_fields then
            (case float_of_str bi value of
               None \<Rightarrow> Raised ValueError c
             | Some x \<Rightarrow> setattr_py bi field (VFloat x) c)
          else setattr_py bi field (VBool (value \<noteq> [])) c
      | _ \<Rightarrow> Raised ValueError c)"

fun read_loop :: "'f builtins \<Rightarrow> string list \<Rightarrow> 'f cfg \<Rightarrow> 'f cfg outcome" where
  "read_loop bi [] c = Return c"
| "read_loop bi (l # ls) c = and_then (read_line bi l c) (read_loop bi ls)"

text \<open>\<^verbatim>\<open>readParameters\<close>. The handler of \<^verbatim>\<open>IOError\<close> prints and falls through to
  \<^verbatim>\<open>inf.readline()\<close>; the local \<^verbatim>\<open>inf\<close> was never bound, so that statement raises
  \<^verbatim>\<open>UnboundLocalError\<close>.\<close>

definition readParameters :: "'f builtins \<Rightarrow> string \<Rightarrow> 'f cfg \<Rightarrow> 'f cfg outcome" where
  "readParameters bi filename c = (case c of (w, s) \<Rightarrow>
     (let w1 = emit (OpenRead (VStr filename)) w in
      case open_read w (VStr filename) of
        IOFail \<Rightarrow>
          Raised UnboundLocalError
            (emit (Print (''Could not open parameter file '' @ filename)) w1, s)
      | OpenRaises e \<Rightarrow> Raised e (w1, s)
      | Opened text \<Rightarrow> read_loop bi (lines_of (universal_newlines text)) (w1, s)))"

subsection \<open>writeParameters\<close>

text \<open>The test of \<^verbatim>\<open>writeParameters\<close> on a field name, negated: the field is left out of
  the file.\<close>

definition excluded :: "string \<Rightarrow> bool" where
  "excluded field =
     (contains ''save'' field \<or> contains ''filename'' field \<or> contains ''cellDim'' field)"

text \<open>The line written for a field.\<close>

definition param_line :: "'f builtins \<Rightarrow> string \<Rightarrow> 'f pyval \<Rightarrow> string" where
  "param_line bi field v = field @ '' = '' @ py_str bi v @ [NL]"

text \<open>The loop of \<^verbatim>\<open>writeParameters\<close> over the remaining fields; \<open>out\<close> is the text written
  so far. The result is the text and the error that stopped the loop, if any.\<close>

fun write_loop :: "'f builtins \<Rightarrow> 'f obj \<Rightarrow> string list \<Rightarrow> string \<Rightarrow> pyerr option \<times> string" where
  "write_loop bi s [] out = (None, out)"
| "write_loop bi s (field # rest) out =
     (if excluded field then write_loop bi s rest out
      else (case getattr_py s field of
              Inl e \<Rightarrow> (Some e, out)
            | Inr v \<Rightarrow> write_loop bi s rest (out @ param_line bi field v)))"

text \<open>\<^verbatim>\<open>writeParameters\<close>. As in \<^verbatim>\<open>readParameters\<close> the handler of \<^verbatim>\<open>IOError\<close> falls
  through, and the first \<^verbatim>\<open>outf.write\<close> raises \<^verbatim>\<open>UnboundLocalError\<close>. A file that was
  written can be opened for reading afterwards and holds the text written (the platform's
  line separator is taken to be \<^verbatim>\<open>\n\<close>).\<close>

definition writeParameters :: "'f builtins \<Rightarrow> string \<Rightarrow> 'f cfg \<Rightarrow> 'f cfg outcome" where
  "writeParameters bi filename c = (case c of (w, s) \<Rightarrow>
     (let w1 = emit (OpenWrite filename) w in
      if \<not> open_write w filename then
        Raised UnboundLocalError
          (emit (Print (''Could not open parameter file '' @ filename)) w1, s)
      else (case write_loop bi s fields [] of
              (None, text) \<Rightarrow>
                Return (w1\<lparr>open_read := (open_read w1)(VStr filename := Opened text)\<rparr>, s)
            | (Some e, text) \<Rightarrow>
                Raised e (w1\<lparr>open_read := (open_read w1)(VStr filename := Opened text)\<rparr>, s))))"

subsection \<open>go\<close>

text \<open>\<^verbatim>\<open>self.name = self.name.lower()\<close> for a plain attribute.\<close>

definition lower_attr :: "string \<Rightarrow> 'f obj \<Rightarrow> 'f obj outcome" where
  "lower_attr n s =
     (case attr s n of
        Inl e \<Rightarrow> Raised e s
      | Inr v \<Rightarrow> (case py_lower v of Inl e \<Rightarrow> Raised e s | Inr v' \<Rightarrow> Return (s(n \<mapsto> v'))))"

text \<open>\<^verbatim>\<open>[getattr(self, field) for field in Metadata.fields]\<close>: the first attribute that
  cannot be read stops the comprehension with its error.\<close>

fun collect :: "'f obj \<Rightarrow> string list \<Rightarrow> pyerr + 'f pyval list" where
  "collect s [] = Inr []"
| "collect s (field # rest) =
     (case getattr_py s field of
        Inl e \<Rightarrow> Inl e
      | Inr v \<Rightarrow> (case collect s rest of Inl e \<Rightarrow> Inl e | Inr vs \<Rightarrow> Inr (v # vs)))"

text \<open>\<^verbatim>\<open>go\<close> up to and including the call of the engine (lines 530 to 534 of the source).
  The rest of the method reads the clock and reports the elapsed time; it assigns no
  attribute and does not call the engine.\<close>

definition go :: "'f cfg \<Rightarrow> 'f cfg outcome" where
  "go c = (case c of (w, s) \<Rightarrow>
     (case and_then (lower_attr ''algorithm'' s) (lower_attr ''transferMode'') of
        Raised e s' \<Rightarrow> Raised e (w, s')
      | Return s' \<Rightarrow>
          (case collect s' fields of
             Inl e \<Rightarrow> Raised e (w, s')
           | Inr l \<Rightarrow>
               (let w1 = emit (EngineCall l) w in
                case engine w l of
                  Some e \<Rightarrow> Raised e (w1, s')
                | None \<Rightarrow> Return (w1, s')))))"

section \<open>Reachable objects\<close>

text \<open>The objects a program can hold: what \<^verbatim>\<open>__init__\<close> returns, and what an assignment to
  an attribute or a property, \<^verbatim>\<open>readParameters\<close> or \<^verbatim>\<open>go\<close> leaves behind, whether the call
  returned or raised (\<^verbatim>\<open>writeParameters\<close> never changes the object).\<close>

inductive reachable :: "'f builtins \<Rightarrow> 'f obj \<Rightarrow> bool" for bi :: "'f builtins" where
  r_init: "init bi seed kwargs w = Return (w', s) \<Longrightarrow> reachable bi s"
| r_setattr: "reachable bi s \<Longrightarrow> snd (final (setattr_py bi n v (w, s))) = s' \<Longrightarrow> reachable bi s'"
| r_read: "reachable bi s \<Longrightarrow> snd (final (readParameters bi filename (w, s))) = s' \<Longrightarrow> reachable bi s'"
| r_go: "reachable bi s \<Longrightarrow> snd (final (go (w, s))) = s' \<Longrightarrow> reachable bi s'"

section \<open>Auxiliary definitions\<close>

text \<open>The names that \<^verbatim>\<open>setattr\<close> does not simply store in the instance dictionary: the
  eleven properties and the three names that take no value of the model.\<close>

definition special_names :: "string list" where
  "special_names = [''filenameAtoms'', ''interpolationFactor'', ''realspacePixelSize'', ''cellDim'',
     ''tile'', ''probeStep'', ''probetilt'', ''scanWindowX'', ''scanWindowY'', ''scanWindowX_r'',
     ''scanWindowY_r'', ''__class__'', ''__dict__'', ''__weakref__'']"

definition stored_names :: "string list" where
  "stored_names =
    [''interpolationFactorX'', ''interpolationFactorY'', ''filenameOutput'',
     ''realspacePixelSizeX'', ''realspacePixelSizeY'', ''potBound'', ''numFP'',
     ''sliceThickness'', ''zSampling'', ''numSlices'', ''zStart'', ''cellDimX'',
     ''cellDimY'', ''cellDimZ'', ''tileX'', ''tileY'', ''tileZ'', ''E0'', ''alphaBeamMax'',
     ''numGPUs'', ''numStreamsPerGPU'', ''numThreads'', ''batchSizeTargetCPU'',
     ''batchSizeTargetGPU'', ''batchSizeCPU'', ''batchSizeGPU'', ''earlyCPUStopCount'',
     ''probeStepX'', ''probeStepY'', ''probeDefocus'', ''probeDefocus_min'',
     ''probeDefocus_max'', ''probeDefocus_step'', ''probeDefocus_sigma'', ''C3'', ''C5'',
     ''aberrations_file'', ''probeSemiangle'', ''detectorAngleStep'', ''probeXtilt'',
     ''probeYtilt'', ''minXtilt'', ''maxXtilt'', ''minYtilt'', ''maxYtilt'', ''minRtilt'',
     ''maxRtilt'', ''xTiltOffset'', ''yTiltOffset'', ''xTiltStep'', ''yTiltStep'',
     ''scanWindowXMin'', ''scanWindowXMax'', ''scanWindowYMin'', ''scanWindowYMax'',
     ''scanWindowXMin_r'', ''scanWindowXMax_r'', ''scanWindowYMin_r'', ''scanWindowYMax_r'',
     ''probes_file'', ''randomSeed'', ''algorithm'', ''potential3D'',
     ''includeThermalEffects'', ''includeOccupancy'', ''alsoDoCPUWork'', ''save2DOutput'',
     ''integrationAngleMin'', ''integrationAngleMax'', ''save3DOutput'', ''save4DOutput'',
     ''crop4DOutput'', ''crop4Damax'', ''saveDPC_CoM'', ''savePotentialSlices'',
     ''saveSMatrix'', ''nyquistSampling'', ''importPotential'', ''importSMatrix'',
     ''saveComplexOutputWave'', ''saveProbe'', ''maxFileSize'', ''matrixRefocus'',
     ''importFile'', ''importPath'', ''transferMode'']"

definition field_positions :: "nat list" where
  "field_positions =
    [1, 2, 0] @ [3..<25] @ [27..<68]
    @ [70, 71, 68, 69, 86, 74, 75, 76, 72, 73, 77, 78, 79, 81, 80, 83, 84, 85, 82]"

definition core_names :: "string list" where
  "core_names =
    [''cellDimX'', ''cellDimY'', ''cellDimZ'', ''tileX'', ''tileY'', ''tileZ'',
     ''scanWindowXMin'', ''scanWindowXMax'', ''scanWindowYMin'', ''scanWindowYMax'',
     ''scanWindowXMin_r'', ''scanWindowXMax_r'', ''scanWindowYMin_r'', ''scanWindowYMax_r'',
     ''algorithm'', ''transferMode'', ''interpolationFactorX'', ''interpolationFactorY'']"

definition core_positions :: "nat list" where
  "core_positions = [11, 12, 13, 14, 15, 16, 51, 52, 53, 54, 55, 56, 57, 58, 61, 85, 0, 1]"

definition stored_defaults :: "'f builtins \<Rightarrow> int \<Rightarrow> (string \<times> 'f pyval) list" where
  "stored_defaults bi seed = [kv \<leftarrow> init_assignments bi seed. fst kv \<noteq> ''filenameAtoms'']"

definition fresh :: "'f builtins \<Rightarrow> int \<Rightarrow> 'f obj" where
  "fresh bi seed =
     Map.empty(map fst (stored_defaults bi seed) [\<mapsto>] map snd (stored_defaults bi seed))"

definition is_digit :: "char \<Rightarrow> bool" where
  "is_digit c = (digit_val c \<noteq> None)"

definition plain_digits :: "string \<Rightarrow> bool" where
  "plain_digits ds = (ds \<noteq> [] \<and> list_all is_digit ds \<and> (length ds = 1 \<or> hd ds \<noteq> CHR ''0''))"

definition unsigned_part :: "string \<Rightarrow> string" where
  "unsigned_part t = (case t of [] \<Rightarrow> [] | c # cs \<Rightarrow> if c = CHR ''-'' then cs else t)"

definition plain_decimal :: "string \<Rightarrow> bool" where
  "plain_decimal t =
     (let ip = takeWhile is_digit (unsigned_part t); r = dropWhile is_digit (unsigned_part t) in
      case r of
        [] \<Rightarrow> False
      | d # fp \<Rightarrow>
          d = CHR ''.'' \<and> plain_digits ip \<and> fp \<noteq> [] \<and> list_all is_digit fp
          \<and> (length fp = 1 \<or> last fp \<noteq> CHR ''0'') \<and> length ip + length fp \<le> 15
          \<and> \<not> (ip = ''0'' \<and> take 4 fp = ''0000''))"

definition text_float_of_str :: "string \<Rightarrow> string option" where
  "text_float_of_str s =
     (let t = strip s in
      if t = ''nan'' \<or> plain_decimal t then Some t
      else if plain_digits (unsigned_part t) \<and> length (unsigned_part t) \<le> 15 then Some (t @ ''.0'')
      else None)"

definition text_floats :: "string builtins" where
  "text_floats = \<lparr>float_lit = (\<lambda>s. s), float_nan = ''nan'', float_of_str = text_float_of_str,
     str_of_float = (\<lambda>x. x), repr_of_str = (\<lambda>s. [CHR 0x27] @ s @ [CHR 0x27])\<rparr>"

definition no_files :: "string world" where
  "no_files = \<lparr>open_read = (\<lambda>_. IOFail), open_write = (\<lambda>_. True), engine = (\<lambda>_. None), trace = []\<rparr>"

definition atoms_world :: "string world" where
  "atoms_world = no_files\<lparr>open_read := (open_read no_files)(VStr ''atoms.xyz'' :=
      Opened ''one unit cell\<newline>10.0 20.0 30.5\<newline>14  0.0 0.0 0.0  1.0 0.076\<newline>-1\<newline>'')\<rparr>"

definition shadowed :: "string obj" where
  "shadowed = (fresh text_floats 7)(''_setCellDims'' \<mapsto> VBool True)"

fun seq_items :: "'f pyval \<Rightarrow> 'f pyval list option" where
  "seq_items (VTuple xs) = Some xs"
| "seq_items (VList xs) = Some xs"
| "seq_items (VStr s) = Some (map (\<lambda>c. VStr [c]) s)"
| "seq_items (VInt n) = None"
| "seq_items (VFloat x) = None"
| "seq_items (VBool b) = None"

definition assign_leading :: "string list \<Rightarrow> 'f pyval list \<Rightarrow> 'f obj \<Rightarrow> 'f obj" where
  "assign_leading names xs s = s(take (length xs) names [\<mapsto>] take (length names) xs)"

definition storage_name :: "string \<Rightarrow> string" where
  "storage_name field = (if field = ''filenameAtoms'' then ''_filenameAtoms'' else field)"

definition run_ready :: "string obj" where
  "run_ready = (fresh text_floats 7)(''_filenameAtoms'' \<mapsto> VStr ''atoms.xyz'',
     ''algorithm'' \<mapsto> VStr ''PRISM'', ''transferMode'' \<mapsto> VStr ''Auto'')"

definition mistyped :: "string obj" where
  "mistyped = (fresh text_floats 7)(''_filenameAtoms'' \<mapsto> VStr ''atoms.xyz'', ''algorithm'' \<mapsto> VInt 5)"

definition valid_kwargs :: "(string \<times> 'f pyval) list \<Rightarrow> (string \<times> 'f pyval) list" where
  "valid_kwargs kwargs = [kv \<leftarrow> kwargs. fst kv \<in> set fields]"

definition unknown_keys :: "(string \<times> 'f pyval) list \<Rightarrow> string list" where
  "unknown_keys kwargs = [k \<leftarrow> map fst kwargs. k \<notin> set fields]"

definition invalid_diag :: "'f event \<Rightarrow> bool" where
  "invalid_diag ev = (case ev of Print m \<Rightarrow> prefix ''Invalid metaparameter '' m | _ \<Rightarrow> False)"

definition without_diags :: "'f world \<Rightarrow> 'f world" where
  "without_diags w = w\<lparr>trace := filter (\<lambda>ev. \<not> invalid_diag ev) (trace w)\<rparr>"

fun modulo_diags :: "'f cfg outcome \<Rightarrow> 'f cfg outcome" where
  "modulo_diags (Return c) = Return (without_diags (fst c), snd c)"
| "modulo_diags (Raised e c) = Raised e (without_diags (fst c), snd c)"

section \<open>Verification\<close>

lemma and_then_Return [simp]: "and_then (Return a) f = f a"
  by (simp add: and_then_def)

lemma and_then_Raised [simp]: "and_then (Raised e a) f = Raised e a"
  by (simp add: and_then_def)

lemma setattr_plain:
  "n \<notin> set special_names \<Longrightarrow> setattr_py bi n v (w, s) = Return (w, s(n \<mapsto> v))"
  by (simp add: special_names_def setattr_py_def lift_obj_def store_def)

lemma setattr_filenameAtoms_empty:
  "setattr_py bi ''filenameAtoms'' (VStr '''') c = Return c"
  by (cases c) (simp add: setattr_py_def filenameAtoms_set_def)

lemma assign_all_plain:
  "\<forall>kv \<in> set kvs. fst kv \<notin> set special_names \<or> kv = (''filenameAtoms'', VStr '''') \<Longrightarrow>
   assign_all bi kvs (w, s) =
     Return (w, s(map fst [kv \<leftarrow> kvs. fst kv \<noteq> ''filenameAtoms''] [\<mapsto>]
                  map snd [kv \<leftarrow> kvs. fst kv \<noteq> ''filenameAtoms'']))"
proof (induction kvs arbitrary: s)
  case Nil
  then show ?case by simp
next
  case (Cons kv kvs)
  obtain k v where kv: "kv = (k, v)" by (cases kv)
  show ?case
  proof (cases "k = ''filenameAtoms''")
    case True
    with Cons.prems kv have "v = VStr ''''" by (auto simp: special_names_def)
    with True kv Cons show ?thesis by (simp add: setattr_filenameAtoms_empty)
  next
    case False
    with Cons.prems kv have "k \<notin> set special_names" by auto
    with False kv Cons show ?thesis by (simp add: setattr_plain)
  qed
qed

lemma init_assignments_plain:
  "\<forall>kv \<in> set (init_assignments bi seed). fst kv \<notin> set special_names \<or> kv = (''filenameAtoms'', VStr '''')"
  by (simp add: init_assignments_def special_names_def)

lemma init_defaults: "assign_all bi (init_assignments bi seed) (w, Map.empty) = Return (w, fresh bi seed)"
  by (simp add: assign_all_plain [OF init_assignments_plain] fresh_def stored_defaults_def)

lemma init_no_kwargs: "init bi seed [] w = Return (w, fresh bi seed)"
  by (simp add: init_def init_defaults)

lemma init_body:
  "''self'' \<notin> fst ` set kwargs \<Longrightarrow>
   init bi seed kwargs w = apply_kwargs bi kwargs (w, fresh bi seed)"
  by (simp add: init_def init_defaults)

lemma fresh_setCellDims: "fresh bi seed ''_setCellDims'' = None"
  by (simp add: fresh_def stored_defaults_def init_assignments_def)

lemma fresh_filenameAtoms: "fresh bi seed ''_filenameAtoms'' = None"
  by (simp add: fresh_def stored_defaults_def init_assignments_def)

lemma stored_names_eq: "map fst (stored_defaults bi seed) = stored_names"
  by (simp add: stored_names_def stored_defaults_def init_assignments_def)

lemma fresh_dom: "dom (fresh bi seed) = set stored_names"
proof -
  have "length (stored_defaults bi seed) = length stored_names"
    using stored_names_eq [of bi seed] by (metis length_map)
  then show ?thesis
    by (simp add: fresh_def dom_map_upds stored_names_eq)
qed

lemma set_by_positions:
  assumes "xs = map (\<lambda>j. ys ! j) js" and "list_all (\<lambda>j. j < length ys) js"
  shows "set xs \<subseteq> set ys"
  using assms by (auto simp: list_all_iff)

lemma fields_by_position:
  "fields = map (\<lambda>j. (''filenameAtoms'' # stored_names) ! j) field_positions"
  by (simp add: fields_def stored_names_def field_positions_def)

lemma field_positions_bound:
  "list_all (\<lambda>j. j < length (''filenameAtoms'' # stored_names)) field_positions"
  by (simp add: stored_names_def field_positions_def)

lemma fields_stored: "f \<in> set fields \<Longrightarrow> f \<noteq> ''filenameAtoms'' \<Longrightarrow> f \<in> set stored_names"
  using set_by_positions [OF fields_by_position field_positions_bound] by auto

lemma core_by_position: "core_names = map (\<lambda>j. stored_names ! j) core_positions"
  by (simp add: core_names_def stored_names_def core_positions_def)

lemma core_positions_bound: "list_all (\<lambda>j. j < length stored_names) core_positions"
  by (simp add: stored_names_def core_positions_def)

lemma core_stored: "set core_names \<subseteq> set stored_names"
  by (rule set_by_positions [OF core_by_position core_positions_bound])

lemma fresh_dom_distinct: "distinct (map fst (stored_defaults bi seed))"
  by (simp add: stored_defaults_def init_assignments_def)

lemma fresh_lookup:
  assumes "(k, v) \<in> set (stored_defaults bi seed)"
  shows "fresh bi seed k = Some v"
proof -
  let ?kvs = "stored_defaults bi seed"
  have "distinct (map fst (rev ?kvs))"
    using fresh_dom_distinct [of bi seed] by (simp add: rev_map [symmetric])
  moreover have "(k, v) \<in> set (rev ?kvs)" using assms by simp
  ultimately have "map_of (rev ?kvs) k = Some v" by (rule map_of_is_SomeI)
  then show ?thesis
    by (simp add: fresh_def map_upds_def zip_map_fst_snd)
qed

lemma getattr_plain: "n \<notin> set special_names \<Longrightarrow> getattr_py s n = attr s n"
  by (simp add: special_names_def getattr_py_def)

lemma fresh_default_readable:
  assumes "(k, v) \<in> set (init_assignments bi seed)" and "k \<noteq> ''filenameAtoms''"
  shows "getattr_py (fresh bi seed) k = Inr v"
proof -
  from assms have "(k, v) \<in> set (stored_defaults bi seed)" by (simp add: stored_defaults_def)
  then have "fresh bi seed k = Some v" by (rule fresh_lookup)
  moreover from assms init_assignments_plain [of bi seed] have "k \<notin> set special_names" by fastforce
  ultimately show ?thesis by (simp add: getattr_plain attr_def)
qed

text \<open>Claim C1. Constructing a \<^verbatim>\<open>Metadata\<close> without overrides returns, but reading
  \<^verbatim>\<open>filenameAtoms\<close> on the result raises \<^verbatim>\<open>AttributeError\<close>: the assignment
  \<^verbatim>\<open>self.filenameAtoms = ""\<close> of \<^verbatim>\<open>__init__\<close> runs the property setter, which stores nothing
  for the empty string. Every other default is readable (\<open>fresh_default_readable\<close>).\<close>

theorem fresh_filenameAtoms_unreadable:
  "returns (init bi seed [] w) \<and>
   getattr_py (snd (final (init bi seed [] w))) ''filenameAtoms'' = Inl AttributeError"
  by (simp add: init_no_kwargs getattr_py_def filenameAtoms_get_def attr_def fresh_filenameAtoms)

text \<open>Claim C3. When opening the parameter file raises \<^verbatim>\<open>IOError\<close>, \<^verbatim>\<open>readParameters\<close> prints
  its message, leaves the object as it was and then raises \<^verbatim>\<open>UnboundLocalError\<close>: it does not
  return.\<close>

theorem readParameters_open_failure:
  "readParameters bi filename (w\<lparr>open_read := (open_read w)(VStr filename := IOFail)\<rparr>, s) =
     Raised UnboundLocalError
       (emit (Print (''Could not open parameter file '' @ filename))
          (emit (OpenRead (VStr filename)) (w\<lparr>open_read := (open_read w)(VStr filename := IOFail)\<rparr>)), s)"
  by (simp add: readParameters_def)

lemma setCellDims_opened:
  assumes "open_read w v = Opened text"
    and "lines_of (universal_newlines text) = l1 # l2 # ls"
    and "split_ws l2 = [a, b, c]"
    and "float_of_str bi a = Some x" and "float_of_str bi b = Some y" and "float_of_str bi c = Some z"
  shows "setCellDims bi v (w, s) =
     Return (emit (OpenRead v) w,
       s(''cellDimX'' \<mapsto> VFloat x, ''cellDimY'' \<mapsto> VFloat y, ''cellDimZ'' \<mapsto> VFloat z))"
  using assms by (simp add: setCellDims_def parse_cell_dims_def)

text \<open>Claim C7, as amended. On an object whose instance dictionary has no entry \<^verbatim>\<open>_setCellDims\<close>,
  assigning to \<^verbatim>\<open>filenameAtoms\<close> a value other than the empty string, when the file opens
  and its second line splits at whitespace into three tokens that \<^verbatim>\<open>float\<close> accepts, stores
  the value and assigns the three floats to \<^verbatim>\<open>cellDimX\<close>, \<^verbatim>\<open>cellDimY\<close>, \<^verbatim>\<open>cellDimZ\<close> in
  this order. Assigning the empty string changes neither the object nor the environment:
  no file is opened (the trace is the same) and the cell dimensions stay.\<close>

theorem filenameAtoms_sets_cell_dimensions:
  assumes "s ''_setCellDims'' = None"
    and "v \<noteq> VStr ''''"
    and "open_read w v = Opened text"
    and "lines_of (universal_newlines text) = l1 # l2 # ls"
    and "split_ws l2 = [a, b, c]"
    and "float_of_str bi a = Some x" and "float_of_str bi b = Some y" and "float_of_str bi c = Some z"
  shows "setattr_py bi ''filenameAtoms'' v (w, s) =
           Return (emit (OpenRead v) w,
             s(''_filenameAtoms'' \<mapsto> v, ''cellDimX'' \<mapsto> VFloat x, ''cellDimY'' \<mapsto> VFloat y,
               ''cellDimZ'' \<mapsto> VFloat z))
         \<and> setattr_py bi ''filenameAtoms'' (VStr '''') (w, s) = Return (w, s)"
  using assms
  by (simp add: setattr_py_def filenameAtoms_set_def setCellDims_opened)

lemma atoms_file_facts:
  "open_read atoms_world (VStr ''atoms.xyz'') =
     Opened ''one unit cell\<newline>10.0 20.0 30.5\<newline>14  0.0 0.0 0.0  1.0 0.076\<newline>-1\<newline>''"
  "lines_of (universal_newlines ''one unit cell\<newline>10.0 20.0 30.5\<newline>14  0.0 0.0 0.0  1.0 0.076\<newline>-1\<newline>'')
     = [''one unit cell\<newline>'', ''10.0 20.0 30.5\<newline>'', ''14  0.0 0.0 0.0  1.0 0.076\<newline>'', ''-1\<newline>'']"
  "split_ws ''10.0 20.0 30.5\<newline>'' = [''10.0'', ''20.0'', ''30.5'']"
  "float_of_str text_floats ''10.0'' = Some ''10.0''"
  "float_of_str text_floats ''20.0'' = Some ''20.0''"
  "float_of_str text_floats ''30.5'' = Some ''30.5''"
proof -
  show "open_read atoms_world (VStr ''atoms.xyz'') =
     Opened ''one unit cell\<newline>10.0 20.0 30.5\<newline>14  0.0 0.0 0.0  1.0 0.076\<newline>-1\<newline>''"
    by (simp add: atoms_world_def)
  show "lines_of (universal_newlines ''one unit cell\<newline>10.0 20.0 30.5\<newline>14  0.0 0.0 0.0  1.0 0.076\<newline>-1\<newline>'')
     = [''one unit cell\<newline>'', ''10.0 20.0 30.5\<newline>'', ''14  0.0 0.0 0.0  1.0 0.076\<newline>'', ''-1\<newline>'']"
    by code_simp
  show "split_ws ''10.0 20.0 30.5\<newline>'' = [''10.0'', ''20.0'', ''30.5'']"
    by code_simp
  show "float_of_str text_floats ''10.0'' = Some ''10.0''"
    "float_of_str text_floats ''20.0'' = Some ''20.0''"
    "float_of_str text_floats ''30.5'' = Some ''30.5''"
    by (simp_all add: text_floats_def) code_simp+
qed

text \<open>The example of the specification: a file whose second line is \<^verbatim>\<open>10.0 20.0 30.5\<close>.\<close>

theorem filenameAtoms_sets_cell_dimensions_witness:
  "setattr_py text_floats ''filenameAtoms'' (VStr ''atoms.xyz'') (atoms_world, fresh text_floats 7) =
     Return (emit (OpenRead (VStr ''atoms.xyz'')) atoms_world,
       (fresh text_floats 7)(''_filenameAtoms'' \<mapsto> VStr ''atoms.xyz'', ''cellDimX'' \<mapsto> VFloat ''10.0'',
          ''cellDimY'' \<mapsto> VFloat ''20.0'', ''cellDimZ'' \<mapsto> VFloat ''30.5''))
   \<and> setattr_py text_floats ''filenameAtoms'' (VStr '''') (atoms_world, fresh text_floats 7) =
     Return (atoms_world, fresh text_floats 7)"
proof -
  have 1: "VStr ''atoms.xyz'' \<noteq> (VStr '''' :: string pyval)" by simp
  show ?thesis
    using filenameAtoms_sets_cell_dimensions [where s = "fresh text_floats 7" and v = "VStr ''atoms.xyz''"
        and w = atoms_world and bi = text_floats, OF fresh_setCellDims 1 atoms_file_facts]
    by simp
qed

lemma reachable_shadowed: "reachable text_floats shadowed"
proof -
  have "''_setCellDims'' \<notin> set special_names" by (simp add: special_names_def)
  then have "snd (final (setattr_py text_floats ''_setCellDims'' (VBool True)
      (no_files, fresh text_floats 7))) = shadowed"
    by (simp add: setattr_plain shadowed_def)
  with r_init [OF init_no_kwargs] show ?thesis by (rule r_setattr)
qed

text \<open>Claim C7 as stated fails on a reachable object: after the assignment
  \<^verbatim>\<open>m._setCellDims = True\<close> (which \<^verbatim>\<open>readParameters\<close> also performs for a line
  \<^verbatim>\<open>_setCellDims = x\<close>) the setter of \<^verbatim>\<open>filenameAtoms\<close> stores the name and then raises
  \<^verbatim>\<open>TypeError\<close> at \<^verbatim>\<open>self._setCellDims(...)\<close>; the file, though it would open and holds
  three numbers on its second line, is never opened and no cell dimension is assigned.\<close>

theorem hidden_setCellDims_raises:
  "reachable text_floats shadowed
   \<and> open_read atoms_world (VStr ''atoms.xyz'') =
       Opened ''one unit cell\<newline>10.0 20.0 30.5\<newline>14  0.0 0.0 0.0  1.0 0.076\<newline>-1\<newline>''
   \<and> setattr_py text_floats ''filenameAtoms'' (VStr ''atoms.xyz'') (atoms_world, shadowed) =
       Raised TypeError (atoms_world, shadowed(''_filenameAtoms'' \<mapsto> VStr ''atoms.xyz''))"
  using reachable_shadowed atoms_file_facts(1)
  by (simp add: setattr_py_def filenameAtoms_set_def shadowed_def)

lemma py_index_seq:
  "seq_items vals = Some xs \<Longrightarrow> py_index vals i = (if i < length xs then Inr (xs ! i) else Inl IndexError)"
  by (cases vals) auto

lemma store_item_seq:
  "seq_items vals = Some xs \<Longrightarrow>
   store_item n vals i s = (if i < length xs then Return (s(n \<mapsto> xs ! i)) else Raised IndexError s)"
  by (simp add: store_item_def py_index_seq)

lemma store_items3:
  assumes "seq_items vals = Some xs"
  shows "and_then (and_then (store_item a vals 0 s) (store_item b vals 1)) (store_item c vals 2) =
     (if 3 \<le> length xs then Return (assign_leading [a, b, c] xs s)
      else Raised IndexError (assign_leading [a, b, c] xs s))"
proof (cases xs)
  case Nil
  then show ?thesis using assms by (simp add: store_item_seq assign_leading_def)
next
  case (Cons x1 r1)
  note c1 = Cons
  show ?thesis
  proof (cases r1)
    case Nil
    then show ?thesis using assms c1 by (simp add: store_item_seq assign_leading_def)
  next
    case (Cons x2 r2)
    note c2 = Cons
    show ?thesis
    proof (cases r2)
      case Nil
      then show ?thesis using assms c1 c2 by (simp add: store_item_seq assign_leading_def)
    next
      case (Cons x3 r3)
      then show ?thesis using assms c1 c2
        by (simp add: store_item_seq assign_leading_def numeral_2_eq_2)
    qed
  qed
qed

lemma store_items2:
  assumes "seq_items vals = Some xs"
  shows "and_then (store_item a vals 0 s) (store_item b vals 1) =
     (if 2 \<le> length xs then Return (assign_leading [a, b] xs s)
      else Raised IndexError (assign_leading [a, b] xs s))"
proof (cases xs)
  case Nil
  then show ?thesis using assms by (simp add: store_item_seq assign_leading_def)
next
  case (Cons x1 r1)
  then show ?thesis using assms
    by (cases r1) (simp_all add: store_item_seq assign_leading_def)
qed

text \<open>Claim C10. Each of the six setters that index their argument (\<^verbatim>\<open>cellDim\<close>, \<^verbatim>\<open>tile\<close>,
  \<^verbatim>\<open>scanWindowX\<close>, \<^verbatim>\<open>scanWindowY\<close>, \<^verbatim>\<open>scanWindowX_r\<close>, \<^verbatim>\<open>scanWindowY_r\<close>), given a
  sequence \<open>xs\<close>: with at least as many components as the property has fields it returns,
  having assigned the leading components in order and ignored the rest; with fewer it
  raises \<^verbatim>\<open>IndexError\<close>, and the object at that point has the leading fields assigned, one
  for each component of \<open>xs\<close>, and the others as before.\<close>

theorem indexed_setters_arity:
  assumes "seq_items vals = Some xs"
  shows "cellDim_set vals s =
           (if 3 \<le> length xs then Return (assign_leading [''cellDimX'', ''cellDimY'', ''cellDimZ''] xs s)
            else Raised IndexError (assign_leading [''cellDimX'', ''cellDimY'', ''cellDimZ''] xs s))
       \<and> tile_set vals s =
           (if 3 \<le> length xs then Return (assign_leading [''tileX'', ''tileY'', ''tileZ''] xs s)
            else Raised IndexError (assign_leading [''tileX'', ''tileY'', ''tileZ''] xs s))
       \<and> scanWindowX_set vals s =
           (if 2 \<le> length xs then Return (assign_leading [''scanWindowXMin'', ''scanWindowXMax''] xs s)
            else Raised IndexError (assign_leading [''scanWindowXMin'', ''scanWindowXMax''] xs s))
       \<and> scanWindowY_set vals s =
           (if 2 \<le> length xs then Return (assign_leading [''scanWindowYMin'', ''scanWindowYMax''] xs s)
            else Raised IndexError (assign_leading [''scanWindowYMin'', ''scanWindowYMax''] xs s))
       \<and> scanWindowX_r_set vals s =
           (if 2 \<le> length xs then Return (assign_leading [''scanWindowXMin_r'', ''scanWindowXMax_r''] xs s)
            else Raised IndexError (assign_leading [''scanWindowXMin_r'', ''scanWindowXMax_r''] xs s))
       \<and> scanWindowY_r_set vals s =
           (if 2 \<le> length xs then Return (assign_leading [''scanWindowYMin_r'', ''scanWindowYMax_r''] xs s)
            else Raised IndexError (assign_leading [''scanWindowYMin_r'', ''scanWindowYMax_r''] xs s))"
  unfolding cellDim_set_def tile_set_def scanWindowX_set_def scanWindowY_set_def
    scanWindowX_r_set_def scanWindowY_r_set_def
  by (intro conjI store_items3 [OF assms] store_items2 [OF assms])

text \<open>A tuple of four assigned to \<^verbatim>\<open>tile\<close>, and a list of one assigned to \<^verbatim>\<open>tile\<close> and to
  \<^verbatim>\<open>scanWindowX\<close>.\<close>

theorem indexed_setters_arity_witness:
  "seq_items (VTuple [VInt 2, VInt 3, VInt 1, VInt 9] :: string pyval) = Some [VInt 2, VInt 3, VInt 1, VInt 9]
   \<and> tile_set (VTuple [VInt 2, VInt 3, VInt 1, VInt 9]) (fresh text_floats 7) =
       Return ((fresh text_floats 7)(''tileX'' \<mapsto> VInt 2, ''tileY'' \<mapsto> VInt 3, ''tileZ'' \<mapsto> VInt 1))
   \<and> seq_items (VList [VInt 5] :: string pyval) = Some [VInt 5]
   \<and> tile_set (VList [VInt 5]) (fresh text_floats 7) =
       Raised IndexError ((fresh text_floats 7)(''tileX'' \<mapsto> VInt 5))
   \<and> scanWindowX_set (VList [VInt 5]) (fresh text_floats 7) =
       Raised IndexError ((fresh text_floats 7)(''scanWindowXMin'' \<mapsto> VInt 5))"
  using indexed_setters_arity [of "VTuple [VInt 2, VInt 3, VInt 1, VInt 9]" "[VInt 2, VInt 3, VInt 1, VInt 9]" "fresh text_floats 7"]
    indexed_setters_arity [of "VList [VInt 5]" "[VInt 5]" "fresh text_floats 7"]
  by (simp add: assign_leading_def)

lemma final_and_then_dom:
  assumes "dom s \<subseteq> dom (final m)" and "\<And>t. dom t \<subseteq> dom (final (g t))"
  shows "dom s \<subseteq> dom (final (and_then m g))"
proof (cases m)
  case (Return a)
  with assms(1) have "dom s \<subseteq> dom a" by simp
  also have "dom a \<subseteq> dom (final (g a))" by (rule assms(2))
  finally show ?thesis using Return by simp
next
  case (Raised e a)
  with assms(1) show ?thesis by simp
qed

lemma store_dom: "dom s \<subseteq> dom (final (store n v s))"
  by (auto simp: store_def)

lemma store_item_dom: "dom s \<subseteq> dom (final (store_item n vals i s))"
  by (auto simp: store_item_def split: sum.splits)

lemmas composite_set_defs =
  interpolationFactor_set_def realspacePixelSize_set_def cellDim_set_def tile_set_def
  probeStep_set_def probetilt_set_def scanWindowX_set_def scanWindowY_set_def
  scanWindowX_r_set_def scanWindowY_r_set_def

lemma composite_set_dom:
  "dom s \<subseteq> dom (final (interpolationFactor_set v s))"
  "dom s \<subseteq> dom (final (realspacePixelSize_set v s))"
  "dom s \<subseteq> dom (final (cellDim_set v s))"
  "dom s \<subseteq> dom (final (tile_set v s))"
  "dom s \<subseteq> dom (final (probeStep_set v s))"
  "dom s \<subseteq> dom (final (probetilt_set v s))"
  "dom s \<subseteq> dom (final (scanWindowX_set v s))"
  "dom s \<subseteq> dom (final (scanWindowY_set v s))"
  "dom s \<subseteq> dom (final (scanWindowX_r_set v s))"
  "dom s \<subseteq> dom (final (scanWindowY_r_set v s))"
  unfolding composite_set_defs
  by (intro final_and_then_dom store_dom store_item_dom)+

lemma lift_obj_dom:
  "dom s \<subseteq> dom (final (f s)) \<Longrightarrow> dom s \<subseteq> dom (snd (final (lift_obj f (w, s))))"
  by (cases "f s") (simp_all add: lift_obj_def)

lemma setCellDims_dom: "dom s \<subseteq> dom (snd (final (setCellDims bi v (w, s))))"
  by (auto simp: setCellDims_def Let_def split: fopen.splits option.splits prod.splits)

lemma filenameAtoms_set_dom: "dom s \<subseteq> dom (snd (final (filenameAtoms_set bi v (w, s))))"
proof (cases "v = VStr ''''")
  case True
  then show ?thesis by (simp add: filenameAtoms_set_def)
next
  case False
  have "dom s \<subseteq> dom (s(''_filenameAtoms'' \<mapsto> v))" by auto
  also have "\<dots> \<subseteq> dom (snd (final (setCellDims bi v (w, s(''_filenameAtoms'' \<mapsto> v)))))"
    by (rule setCellDims_dom)
  finally show ?thesis using False
    by (cases "s ''_setCellDims''") (auto simp: filenameAtoms_set_def)
qed

lemma setattr_dom: "dom (snd c) \<subseteq> dom (snd (final (setattr_py bi n v c)))"
proof (cases c)
  case (Pair w s)
  show ?thesis
    unfolding Pair setattr_py_def snd_conv
    by (simp add: filenameAtoms_set_dom lift_obj_dom composite_set_dom store_dom)
qed

lemma cfg_and_then_dom:
  assumes "dom s \<subseteq> dom (snd (final m))" and "\<And>c. dom (snd c) \<subseteq> dom (snd (final (g c)))"
  shows "dom s \<subseteq> dom (snd (final (and_then m g)))"
proof (cases m)
  case (Return a)
  with assms(1) have "dom s \<subseteq> dom (snd a)" by simp
  also have "dom (snd a) \<subseteq> dom (snd (final (g a)))" by (rule assms(2))
  finally show ?thesis using Return by simp
next
  case (Raised e a)
  with assms(1) show ?thesis by simp
qed

lemma read_line_dom: "dom (snd c) \<subseteq> dom (snd (final (read_line bi l c)))"
  by (simp add: read_line_def setattr_dom split: list.splits option.splits)

lemma read_loop_dom: "dom (snd c) \<subseteq> dom (snd (final (read_loop bi ls c)))"
proof (induction ls arbitrary: c)
  case Nil
  show ?case by simp
next
  case (Cons l ls)
  show ?case
    unfolding read_loop.simps
    by (rule cfg_and_then_dom [OF read_line_dom]) (rule Cons.IH)
qed

lemma readParameters_dom: "dom s \<subseteq> dom (snd (final (readParameters bi filename (w, s))))"
proof (cases "open_read w (VStr filename)")
  case (Opened body)
  show ?thesis
    using read_loop_dom [of "(emit (OpenRead (VStr filename)) w, s)" bi "lines_of (universal_newlines body)"]
    by (simp add: readParameters_def Opened)
qed (simp_all add: readParameters_def)

lemma lower_attr_dom: "dom s \<subseteq> dom (final (lower_attr n s))"
  by (auto simp: lower_attr_def split: sum.splits)

lemma go_dom: "dom s \<subseteq> dom (snd (final (go (w, s))))"
proof -
  let ?m = "and_then (lower_attr ''algorithm'' s) (lower_attr ''transferMode'')"
  have "dom s \<subseteq> dom (final ?m)"
    by (intro final_and_then_dom lower_attr_dom)
  then show ?thesis
    by (cases ?m) (auto simp: go_def Let_def split: sum.splits option.splits)
qed

lemma assign_all_dom: "dom (snd c) \<subseteq> dom (snd (final (assign_all bi kvs c)))"
proof (induction kvs arbitrary: c)
  case Nil
  show ?case by simp
next
  case (Cons kv kvs)
  obtain k v where kv: "kv = (k, v)" by (cases kv)
  show ?case
    unfolding kv assign_all.simps
    by (rule cfg_and_then_dom [OF setattr_dom]) (rule Cons.IH)
qed

lemma apply_kwargs_dom: "dom (snd c) \<subseteq> dom (snd (final (apply_kwargs bi kvs c)))"
proof (induction kvs arbitrary: c)
  case Nil
  show ?case by simp
next
  case (Cons kv kvs)
  obtain k v where kv: "kv = (k, v)" by (cases kv)
  show ?case
  proof (cases "k \<in> set fields")
    case True
    have "dom (snd c) \<subseteq> dom (snd (final (and_then (setattr_py bi k v c) (apply_kwargs bi kvs))))"
      by (rule cfg_and_then_dom [OF setattr_dom]) (rule Cons.IH)
    with True kv show ?thesis by simp
  next
    case False
    have "dom (snd (emit (Print (invalid_msg k)) (fst c), snd c)) \<subseteq>
          dom (snd (final (apply_kwargs bi kvs (emit (Print (invalid_msg k)) (fst c), snd c))))"
      by (rule Cons.IH)
    with False kv show ?thesis by simp
  qed
qed

lemma init_dom:
  assumes "init bi seed kwargs w = Return (w', s)"
  shows "set stored_names \<subseteq> dom s"
proof -
  have "dom (snd (w, fresh bi seed)) \<subseteq> dom (snd (final (apply_kwargs bi kwargs (w, fresh bi seed))))"
    by (rule apply_kwargs_dom)
  then show ?thesis using assms
    by (cases "''self'' \<in> fst ` set kwargs") (simp_all add: init_def init_defaults fresh_dom)
qed

lemma reachable_has_defaults: "reachable bi s \<Longrightarrow> set stored_names \<subseteq> dom s"
proof (induction rule: reachable.induct)
  case (r_init seed kwargs w w' s)
  then show ?case by (rule init_dom)
next
  case (r_setattr s n v w s')
  then show ?case using setattr_dom [of "(w, s)" bi n v] by auto
next
  case (r_read s filename w s')
  then show ?case using readParameters_dom [of s bi filename w] by auto
next
  case (r_go s w s')
  then show ?case using go_dom [of s w] by auto
qed

lemma reachable_fresh: "reachable bi (fresh bi seed)"
  by (rule r_init [of bi seed "[]" w w]) (rule init_no_kwargs)

lemma store_items_same3:
  assumes "s a = Some x" "s b = Some y" "s c = Some z"
  shows "triple_of s a b c = Inr (VTuple [x, y, z])"
    and "and_then (and_then (store_item a (VTuple [x, y, z]) 0 s) (store_item b (VTuple [x, y, z]) 1))
           (store_item c (VTuple [x, y, z]) 2) = Return s"
proof -
  show "triple_of s a b c = Inr (VTuple [x, y, z])"
    using assms by (simp add: triple_of_def)
  have "s(a \<mapsto> x) = s" using assms(1) by (rule map_upd_triv)
  moreover have "s(b \<mapsto> y) = s" using assms(2) by (rule map_upd_triv)
  moreover have "s(c \<mapsto> z) = s" using assms(3) by (rule map_upd_triv)
  ultimately show "and_then (and_then (store_item a (VTuple [x, y, z]) 0 s) (store_item b (VTuple [x, y, z]) 1))
           (store_item c (VTuple [x, y, z]) 2) = Return s"
    by (simp add: store_item_def)
qed

lemma store_items_same2:
  assumes "s a = Some x" "s b = Some y"
  shows "pair_of s a b = Inr (VTuple [x, y])"
    and "and_then (store_item a (VTuple [x, y]) 0 s) (store_item b (VTuple [x, y]) 1) = Return s"
proof -
  show "pair_of s a b = Inr (VTuple [x, y])"
    using assms by (simp add: pair_of_def)
  have "s(a \<mapsto> x) = s" using assms(1) by (rule map_upd_triv)
  moreover have "s(b \<mapsto> y) = s" using assms(2) by (rule map_upd_triv)
  ultimately show "and_then (store_item a (VTuple [x, y]) 0 s) (store_item b (VTuple [x, y]) 1) = Return s"
    by (simp add: store_item_def)
qed

lemma set_get_triple:
  assumes "{a, b, c} \<subseteq> dom s"
  shows "\<exists>t. triple_of s a b c = Inr t \<and>
     and_then (and_then (store_item a t 0 s) (store_item b t 1)) (store_item c t 2) = Return s"
proof -
  from assms obtain x y z where "s a = Some x" "s b = Some y" "s c = Some z" by auto
  then show ?thesis using store_items_same3 [of s a x b y c z] by blast
qed

lemma set_get_pair:
  assumes "{a, b} \<subseteq> dom s"
  shows "\<exists>t. pair_of s a b = Inr t \<and> and_then (store_item a t 0 s) (store_item b t 1) = Return s"
proof -
  from assms obtain x y where "s a = Some x" "s b = Some y" by auto
  then show ?thesis using store_items_same2 [of s a x b y] by blast
qed

lemma core_present:
  assumes "set stored_names \<subseteq> dom s"
  shows "{''cellDimX'', ''cellDimY'', ''cellDimZ''} \<subseteq> dom s"
    "{''tileX'', ''tileY'', ''tileZ''} \<subseteq> dom s"
    "{''scanWindowXMin'', ''scanWindowXMax''} \<subseteq> dom s"
    "{''scanWindowYMin'', ''scanWindowYMax''} \<subseteq> dom s"
    "{''scanWindowXMin_r'', ''scanWindowXMax_r''} \<subseteq> dom s"
    "{''scanWindowYMin_r'', ''scanWindowYMax_r''} \<subseteq> dom s"
proof -
  have "set core_names \<subseteq> dom s" using core_stored assms by (rule subset_trans)
  then show "{''cellDimX'', ''cellDimY'', ''cellDimZ''} \<subseteq> dom s"
    "{''tileX'', ''tileY'', ''tileZ''} \<subseteq> dom s"
    "{''scanWindowXMin'', ''scanWindowXMax''} \<subseteq> dom s"
    "{''scanWindowYMin'', ''scanWindowYMax''} \<subseteq> dom s"
    "{''scanWindowXMin_r'', ''scanWindowXMax_r''} \<subseteq> dom s"
    "{''scanWindowYMin_r'', ''scanWindowYMax_r''} \<subseteq> dom s"
    by (simp_all add: core_names_def)
qed

text \<open>Claim C5, as amended. In every reachable object, for each of the six properties whose
  setter indexes its argument (\<^verbatim>\<open>cellDim\<close>, \<^verbatim>\<open>tile\<close>, \<^verbatim>\<open>scanWindowX\<close>, \<^verbatim>\<open>scanWindowY\<close>,
  \<^verbatim>\<open>scanWindowX_r\<close>, \<^verbatim>\<open>scanWindowY_r\<close>), reading the property succeeds and assigning the
  tuple read leaves the object unchanged; and assigning \<^verbatim>\<open>(2, 3, 1)\<close> to \<^verbatim>\<open>tile\<close> makes
  \<^verbatim>\<open>tile\<close> read \<^verbatim>\<open>(2, 3, 1)\<close> with \<^verbatim>\<open>tileX\<close>, \<^verbatim>\<open>tileY\<close>, \<^verbatim>\<open>tileZ\<close> equal to 2, 3, 1.\<close>

theorem indexed_set_get_unchanged:
  assumes "reachable bi s"
  shows "(\<exists>t. cellDim_get s = Inr t \<and> cellDim_set t s = Return s)
       \<and> (\<exists>t. tile_get s = Inr t \<and> tile_set t s = Return s)
       \<and> (\<exists>t. scanWindowX_get s = Inr t \<and> scanWindowX_set t s = Return s)
       \<and> (\<exists>t. scanWindowY_get s = Inr t \<and> scanWindowY_set t s = Return s)
       \<and> (\<exists>t. scanWindowX_r_get s = Inr t \<and> scanWindowX_r_set t s = Return s)
       \<and> (\<exists>t. scanWindowY_r_get s = Inr t \<and> scanWindowY_r_set t s = Return s)
       \<and> (\<exists>s'. tile_set (VTuple [VInt 2, VInt 3, VInt 1]) s = Return s'
              \<and> tile_get s' = Inr (VTuple [VInt 2, VInt 3, VInt 1])
              \<and> s' ''tileX'' = Some (VInt 2) \<and> s' ''tileY'' = Some (VInt 3)
              \<and> s' ''tileZ'' = Some (VInt 1))"
proof -
  have d: "set stored_names \<subseteq> dom s" using assms by (rule reachable_has_defaults)
  have "\<exists>s'. tile_set (VTuple [VInt 2, VInt 3, VInt 1]) s = Return s'
              \<and> tile_get s' = Inr (VTuple [VInt 2, VInt 3, VInt 1])
              \<and> s' ''tileX'' = Some (VInt 2) \<and> s' ''tileY'' = Some (VInt 3)
              \<and> s' ''tileZ'' = Some (VInt 1)"
    by (simp add: tile_set_def tile_get_def store_item_def triple_of_def)
  then show ?thesis
    unfolding cellDim_get_def cellDim_set_def tile_get_def tile_set_def
      scanWindowX_get_def scanWindowX_set_def scanWindowY_get_def scanWindowY_set_def
      scanWindowX_r_get_def scanWindowX_r_set_def scanWindowY_r_get_def scanWindowY_r_set_def
    using set_get_triple [OF core_present(1) [OF d]] set_get_triple [OF core_present(2) [OF d]]
      set_get_pair [OF core_present(3) [OF d]] set_get_pair [OF core_present(4) [OF d]]
      set_get_pair [OF core_present(5) [OF d]] set_get_pair [OF core_present(6) [OF d]]
    by (intro conjI)
qed

text \<open>The object right after construction is reachable, and the theorem applies to it.\<close>

theorem indexed_set_get_unchanged_witness:
  "reachable text_floats (fresh text_floats 7)
   \<and> (\<exists>t. tile_get (fresh text_floats 7) = Inr t \<and> tile_set t (fresh text_floats 7) = Return (fresh text_floats 7))
   \<and> (\<exists>s'. tile_set (VTuple [VInt 2, VInt 3, VInt 1]) (fresh text_floats 7) = Return s'
              \<and> tile_get s' = Inr (VTuple [VInt 2, VInt 3, VInt 1])
              \<and> s' ''tileX'' = Some (VInt 2) \<and> s' ''tileY'' = Some (VInt 3)
              \<and> s' ''tileZ'' = Some (VInt 1))"
  using indexed_set_get_unchanged [OF reachable_fresh [of text_floats 7]] reachable_fresh [of text_floats 7]
  by simp

lemma fresh_interpolationFactor:
  "fresh bi seed ''interpolationFactorX'' = Some (VInt 4)"
  "fresh bi seed ''interpolationFactorY'' = Some (VInt 4)"
  by (rule fresh_lookup, simp add: stored_defaults_def init_assignments_def)+

text \<open>Claim C5 as stated fails for the four properties whose setter assigns its whole argument
  to both fields (\<^verbatim>\<open>interpolationFactor\<close>, \<^verbatim>\<open>realspacePixelSize\<close>, \<^verbatim>\<open>probeStep\<close>,
  \<^verbatim>\<open>probetilt\<close>): right after construction \<^verbatim>\<open>interpolationFactor\<close> reads \<^verbatim>\<open>(4, 4)\<close>, and
  assigning that tuple back stores the tuple in both \<^verbatim>\<open>interpolationFactorX\<close> and
  \<^verbatim>\<open>interpolationFactorY\<close>, which held 4.\<close>

theorem broadcast_set_get_changes_state:
  "reachable text_floats (fresh text_floats 7)
   \<and> interpolationFactor_get (fresh text_floats 7) = Inr (VTuple [VInt 4, VInt 4])
   \<and> interpolationFactor_set (VTuple [VInt 4, VInt 4]) (fresh text_floats 7) =
       Return ((fresh text_floats 7)(''interpolationFactorX'' \<mapsto> VTuple [VInt 4, VInt 4],
                                     ''interpolationFactorY'' \<mapsto> VTuple [VInt 4, VInt 4]))
   \<and> (fresh text_floats 7)(''interpolationFactorX'' \<mapsto> VTuple [VInt 4, VInt 4],
                            ''interpolationFactorY'' \<mapsto> VTuple [VInt 4, VInt 4])
       \<noteq> fresh text_floats 7"
proof -
  have "((fresh text_floats 7)(''interpolationFactorX'' \<mapsto> VTuple [VInt 4, VInt 4],
           ''interpolationFactorY'' \<mapsto> VTuple [VInt 4, VInt 4])) ''interpolationFactorX''
        \<noteq> fresh text_floats 7 ''interpolationFactorX''"
    by (simp add: fresh_interpolationFactor)
  then have "(fresh text_floats 7)(''interpolationFactorX'' \<mapsto> VTuple [VInt 4, VInt 4],
                            ''interpolationFactorY'' \<mapsto> VTuple [VInt 4, VInt 4])
       \<noteq> fresh text_floats 7"
    by metis
  then show ?thesis
    using reachable_fresh [of text_floats 7]
    by (simp add: interpolationFactor_get_def interpolationFactor_set_def pair_of_def store_def
        fresh_interpolationFactor)
qed

lemma fields_properties_list: "list_all (\<lambda>f. f = ''filenameAtoms'' \<or> f \<notin> set special_names) fields"
  by (simp add: fields_def special_names_def)

lemma fields_properties: "f \<in> set fields \<Longrightarrow> f \<noteq> ''filenameAtoms'' \<Longrightarrow> f \<notin> set special_names"
  using fields_properties_list by (auto simp only: list_all_iff)

lemma getattr_field:
  assumes "f \<in> set fields"
  shows "getattr_py s f = attr s (storage_name f)"
proof (cases "f = ''filenameAtoms''")
  case True
  then show ?thesis by (simp add: getattr_py_def filenameAtoms_get_def storage_name_def)
next
  case False
  with assms have "f \<notin> set special_names" by (rule fields_properties)
  with False show ?thesis by (simp add: getattr_plain storage_name_def)
qed

lemma collect_all2: "collect s fs = Inr l \<longleftrightarrow> list_all2 (\<lambda>f v. getattr_py s f = Inr v) fs l"
proof (induction fs arbitrary: l)
  case Nil
  show ?case by auto
next
  case (Cons f fs)
  show ?case
  proof (cases "getattr_py s f")
    case (Inl e)
    then show ?thesis by (auto simp: list_all2_Cons1)
  next
    case (Inr v)
    then show ?thesis using Cons.IH
      by (cases "collect s fs") (auto simp: list_all2_Cons1)
  qed
qed

lemma collect_readable:
  assumes "\<forall>f \<in> set fs. \<exists>v. getattr_py s f = Inr v"
  shows "\<exists>l. collect s fs = Inr l"
  using assms
proof (induction fs)
  case Nil
  show ?case by simp
next
  case (Cons f fs)
  then obtain v l where "getattr_py s f = Inr v" "collect s fs = Inr l" by auto
  then show ?case by simp
qed

lemma readable_after_store:
  assumes "f \<in> set fields" and "\<exists>v. getattr_py s f = Inr v"
  shows "\<exists>v. getattr_py (s(n \<mapsto> x)) f = Inr v"
  using assms by (auto simp: getattr_field attr_def split: option.splits)

text \<open>Claim C2, as amended. In an object where \<^verbatim>\<open>algorithm\<close> and \<^verbatim>\<open>transferMode\<close> hold strings and every
  field of the canonical list can be read, \<^verbatim>\<open>go\<close> replaces the two strings by their lower-case
  forms and calls the engine exactly once, with a list \<open>l\<close> that has one element for each
  field of \<^verbatim>\<open>Metadata.fields\<close>, in that order, each the value of its field in the object as
  it is at the call (after the two replacements). The call is the only event added to the
  trace, and \<^verbatim>\<open>go\<close> gets past it exactly when the engine does not raise.\<close>

theorem go_passes_fields_in_order:
  assumes "s ''algorithm'' = Some (VStr a)"
    and "s ''transferMode'' = Some (VStr t)"
    and "\<forall>f \<in> set fields. \<exists>v. getattr_py s f = Inr v"
  shows "\<exists>l. list_all2 (\<lambda>f v. getattr_py (s(''algorithm'' \<mapsto> VStr (lower a),
                   ''transferMode'' \<mapsto> VStr (lower t))) f = Inr v) fields l
           \<and> final (go (w, s)) = (emit (EngineCall l) w,
                s(''algorithm'' \<mapsto> VStr (lower a), ''transferMode'' \<mapsto> VStr (lower t)))
           \<and> returns (go (w, s)) = (engine w l = None)"
proof -
  let ?s' = "s(''algorithm'' \<mapsto> VStr (lower a), ''transferMode'' \<mapsto> VStr (lower t))"
  have low: "and_then (lower_attr ''algorithm'' s) (lower_attr ''transferMode'') = Return ?s'"
    using assms(1,2) by (simp add: lower_attr_def attr_def)
  have "\<forall>f \<in> set fields. \<exists>v. getattr_py ?s' f = Inr v"
  proof
    fix f assume f: "f \<in> set fields"
    with assms(3) have "\<exists>v. getattr_py s f = Inr v" by simp
    with f have "\<exists>v. getattr_py (s(''algorithm'' \<mapsto> VStr (lower a))) f = Inr v"
      by (rule readable_after_store)
    with f show "\<exists>v. getattr_py ?s' f = Inr v"
      by (rule readable_after_store)
  qed
  then have "\<exists>l. collect ?s' fields = Inr l"
    by (rule collect_readable)
  then obtain l where l: "collect ?s' fields = Inr l" ..
  then have "list_all2 (\<lambda>f v. getattr_py ?s' f = Inr v) fields l"
    by (simp add: collect_all2)
  moreover have "final (go (w, s)) = (emit (EngineCall l) w, ?s')"
    by (cases "engine w l") (simp_all add: go_def low l)
  moreover have "returns (go (w, s)) = (engine w l = None)"
    by (cases "engine w l") (simp_all add: go_def low l)
  ultimately show ?thesis by (intro exI [where x = l] conjI)
qed

lemma run_ready_readable: "\<forall>f \<in> set fields. \<exists>v. getattr_py run_ready f = Inr v"
proof
  fix f assume f: "f \<in> set fields"
  show "\<exists>v. getattr_py run_ready f = Inr v"
  proof (cases "f = ''filenameAtoms''")
    case True
    then show ?thesis by (simp add: getattr_py_def filenameAtoms_get_def attr_def run_ready_def)
  next
    case False
    with f have "f \<in> dom (fresh text_floats 7)" by (simp add: fresh_dom fields_stored)
    then have "f \<in> dom run_ready" by (auto simp: run_ready_def)
    with f False show ?thesis by (auto simp: getattr_field attr_def storage_name_def)
  qed
qed

text \<open>An object with the atoms file set and mixed-case strings satisfies the hypotheses.\<close>

theorem go_passes_fields_in_order_witness:
  "run_ready ''algorithm'' = Some (VStr ''PRISM'')
   \<and> run_ready ''transferMode'' = Some (VStr ''Auto'')
   \<and> (\<exists>l. list_all2 (\<lambda>f v. getattr_py (run_ready(''algorithm'' \<mapsto> VStr (lower ''PRISM''),
                   ''transferMode'' \<mapsto> VStr (lower ''Auto''))) f = Inr v) fields l
           \<and> final (go (no_files, run_ready)) = (emit (EngineCall l) no_files,
                run_ready(''algorithm'' \<mapsto> VStr (lower ''PRISM''), ''transferMode'' \<mapsto> VStr (lower ''Auto'')))
           \<and> returns (go (no_files, run_ready)) = (engine no_files l = None))"
proof -
  have 1: "run_ready ''algorithm'' = Some (VStr ''PRISM'')" by (simp add: run_ready_def)
  have 2: "run_ready ''transferMode'' = Some (VStr ''Auto'')" by (simp add: run_ready_def)
  from go_passes_fields_in_order [OF 1 2 run_ready_readable, of no_files] 1 2
  show ?thesis by (intro conjI)
qed

lemma lower_examples: "lower ''prism'' = ''prism''" "lower ''auto'' = ''auto''" "lower ''PRISM'' = ''prism''"
  by code_simp+

lemma fresh_strings:
  "fresh bi seed ''algorithm'' = Some (VStr ''prism'')"
  "fresh bi seed ''transferMode'' = Some (VStr ''auto'')"
  by (rule fresh_lookup, simp add: stored_defaults_def init_assignments_def)+

lemma collect_stops:
  assumes "getattr_py s a = Inr x" "getattr_py s b = Inr y" "getattr_py s c = Inl e"
  shows "collect s (a # b # c # rest) = Inl e"
  using assms by simp

lemma go_without_filenameAtoms:
  assumes "s ''algorithm'' = Some (VStr a)" and "s ''transferMode'' = Some (VStr t)"
    and "s ''interpolationFactorX'' = Some x" and "s ''interpolationFactorY'' = Some y"
    and "s ''_filenameAtoms'' = None"
  shows "go (w, s) = Raised AttributeError
           (w, s(''algorithm'' \<mapsto> VStr (lower a), ''transferMode'' \<mapsto> VStr (lower t)))"
proof -
  let ?s' = "s(''algorithm'' \<mapsto> VStr (lower a), ''transferMode'' \<mapsto> VStr (lower t))"
  have low: "and_then (lower_attr ''algorithm'' s) (lower_attr ''transferMode'') = Return ?s'"
    using assms(1,2) by (simp add: lower_attr_def attr_def)
  have "collect ?s' (''interpolationFactorX'' # ''interpolationFactorY'' # ''filenameAtoms'' # drop 3 fields)
      = Inl AttributeError"
    using assms(3-5)
    by (intro collect_stops) (simp_all add: getattr_py_def filenameAtoms_get_def attr_def)
  moreover have "''interpolationFactorX'' # ''interpolationFactorY'' # ''filenameAtoms'' # drop 3 fields = fields"
    by (simp add: fields_def)
  ultimately have "collect ?s' fields = Inl AttributeError" by simp
  then show ?thesis by (simp add: go_def low)
qed

lemma reachable_mistyped: "reachable text_floats mistyped"
proof -
  have a: "snd (final (setattr_py text_floats ''filenameAtoms'' (VStr ''atoms.xyz'') (no_files, fresh text_floats 7)))
      = (fresh text_floats 7)(''_filenameAtoms'' \<mapsto> VStr ''atoms.xyz'')"
    by (simp add: setattr_py_def filenameAtoms_set_def setCellDims_def no_files_def fresh_setCellDims)
  have b: "snd (final (setattr_py text_floats ''algorithm'' (VInt 5)
       (no_files, (fresh text_floats 7)(''_filenameAtoms'' \<mapsto> VStr ''atoms.xyz'')))) = mistyped"
    by (simp add: setattr_plain special_names_def mistyped_def)
  show ?thesis
    by (rule r_setattr [OF r_setattr [OF reachable_fresh a] b])
qed

text \<open>Claim C2 as stated fails on two reachable objects. Right after construction
  \<^verbatim>\<open>filenameAtoms\<close> cannot be read, so \<^verbatim>\<open>go\<close> lowers the two strings and then raises
  \<^verbatim>\<open>AttributeError\<close> while building the list. With \<^verbatim>\<open>algorithm\<close> set to the integer 5,
  \<^verbatim>\<open>self.algorithm.lower()\<close> raises \<^verbatim>\<open>AttributeError\<close> at once. In both runs the environment
  is unchanged: the engine is not called.\<close>

theorem go_raises_before_engine:
  "reachable text_floats (fresh text_floats 7)
   \<and> go (no_files, fresh text_floats 7) =
       Raised AttributeError (no_files, (fresh text_floats 7)(''algorithm'' \<mapsto> VStr ''prism'',
          ''transferMode'' \<mapsto> VStr ''auto''))
   \<and> reachable text_floats mistyped
   \<and> go (no_files, mistyped) = Raised AttributeError (no_files, mistyped)
   \<and> trace no_files = []"
proof -
  have "go (no_files, fresh text_floats 7) =
       Raised AttributeError (no_files, (fresh text_floats 7)(''algorithm'' \<mapsto> VStr ''prism'',
          ''transferMode'' \<mapsto> VStr ''auto''))"
    using go_without_filenameAtoms [OF fresh_strings(1) [of text_floats 7]
        fresh_strings(2) [of text_floats 7] fresh_interpolationFactor(1) [of text_floats 7]
        fresh_interpolationFactor(2) [of text_floats 7] fresh_filenameAtoms [of text_floats 7],
        of no_files]
    by (simp add: lower_examples)
  moreover have "go (no_files, mistyped) = Raised AttributeError (no_files, mistyped)"
    by (simp add: go_def lower_attr_def attr_def mistyped_def)
  ultimately show ?thesis
    using reachable_fresh [of text_floats 7] reachable_mistyped by (simp add: no_files_def)
qed

lemma invalid_diag_simps [simp]:
  "invalid_diag (OpenRead v) = False"
  "invalid_diag (Print (invalid_msg k)) = True"
  by (simp_all add: invalid_diag_def invalid_msg_def)

lemma without_diags_emit:
  "without_diags (emit ev w) =
     (without_diags w)\<lparr>trace := trace (without_diags w) @ (if invalid_diag ev then [] else [ev])\<rparr>"
  by (simp add: without_diags_def emit_def)

lemma without_diags_unknown [simp]: "without_diags (emit (Print (invalid_msg k)) w) = without_diags w"
  by (simp add: without_diags_emit)

lemma without_diags_emit_cong:
  "without_diags w = without_diags w' \<Longrightarrow> without_diags (emit ev w) = without_diags (emit ev w')"
  by (simp only: without_diags_emit)

lemma without_diags_open_read:
  assumes "without_diags w = without_diags w'"
  shows "open_read w = open_read w'"
proof -
  have "open_read w = open_read (without_diags w)" by (simp add: without_diags_def)
  also have "\<dots> = open_read (without_diags w')" by (simp only: assms)
  also have "\<dots> = open_read w'" by (simp add: without_diags_def)
  finally show ?thesis .
qed

lemma modulo_lift_obj:
  "without_diags w = without_diags w' \<Longrightarrow>
   modulo_diags (lift_obj f (w, s)) = modulo_diags (lift_obj f (w', s))"
  by (cases "f s") (simp_all add: lift_obj_def)

lemma modulo_setCellDims:
  assumes "without_diags w = without_diags w'"
  shows "modulo_diags (setCellDims bi v (w, s)) = modulo_diags (setCellDims bi v (w', s))"
proof -
  have o: "open_read w = open_read w'" using assms by (rule without_diags_open_read)
  have 1: "without_diags (emit (OpenRead v) w) = without_diags (emit (OpenRead v) w')"
    using assms by (rule without_diags_emit_cong)
  then have 2: "without_diags (emit ev (emit (OpenRead v) w)) =
      without_diags (emit ev (emit (OpenRead v) w'))" for ev
    by (rule without_diags_emit_cong)
  show ?thesis
    by (cases "open_read w' v")
      (simp_all add: setCellDims_def Let_def o 1 2 split: option.splits prod.splits)
qed

lemma modulo_setattr:
  assumes "without_diags w = without_diags w'"
  shows "modulo_diags (setattr_py bi n v (w, s)) = modulo_diags (setattr_py bi n v (w', s))"
proof -
  have "modulo_diags (filenameAtoms_set bi v (w, s)) = modulo_diags (filenameAtoms_set bi v (w', s))"
    using assms modulo_setCellDims [OF assms]
    by (simp add: filenameAtoms_set_def Let_def split: option.splits)
  then show ?thesis
    unfolding setattr_py_def using assms modulo_lift_obj [OF assms] by simp
qed

lemma modulo_and_then:
  assumes "modulo_diags m = modulo_diags m'"
    and "\<And>w w' s. without_diags w = without_diags w' \<Longrightarrow>
           modulo_diags (g (w, s)) = modulo_diags (g' (w', s))"
  shows "modulo_diags (and_then m g) = modulo_diags (and_then m' g')"
proof (cases m)
  case (Return c)
  obtain w1 s1 where c: "c = (w1, s1)" by (cases c)
  from assms(1) Return c obtain w2 where m': "m' = Return (w2, s1)"
    and "without_diags w1 = without_diags w2"
    by (cases m') auto
  then show ?thesis using Return c assms(2) [of w1 w2 s1] by simp
next
  case (Raised e c)
  with assms(1) show ?thesis by (cases m') auto
qed

lemma modulo_apply_kwargs_world:
  "without_diags w = without_diags w' \<Longrightarrow>
   modulo_diags (apply_kwargs bi kvs (w, s)) = modulo_diags (apply_kwargs bi kvs (w', s))"
proof (induction kvs arbitrary: w w' s)
  case Nil
  then show ?case by simp
next
  case (Cons kv kvs)
  obtain k v where kv: "kv = (k, v)" by (cases kv)
  show ?case
  proof (cases "k \<in> set fields")
    case True
    have "modulo_diags (and_then (setattr_py bi k v (w, s)) (apply_kwargs bi kvs)) =
          modulo_diags (and_then (setattr_py bi k v (w', s)) (apply_kwargs bi kvs))"
      by (rule modulo_and_then [OF modulo_setattr [OF Cons.prems]]) (rule Cons.IH)
    with True kv show ?thesis by simp
  next
    case False
    have "without_diags (emit (Print (invalid_msg k)) w) =
          without_diags (emit (Print (invalid_msg k)) w')"
      using Cons.prems by simp
    then have "modulo_diags (apply_kwargs bi kvs (emit (Print (invalid_msg k)) w, s)) =
               modulo_diags (apply_kwargs bi kvs (emit (Print (invalid_msg k)) w', s))"
      by (rule Cons.IH)
    with False kv show ?thesis by simp
  qed
qed

lemma modulo_apply_kwargs_valid:
  "modulo_diags (apply_kwargs bi kvs (w, s)) = modulo_diags (apply_kwargs bi (valid_kwargs kvs) (w, s))"
proof (induction kvs arbitrary: w s)
  case Nil
  show ?case by (simp add: valid_kwargs_def)
next
  case (Cons kv kvs)
  obtain k v where kv: "kv = (k, v)" by (cases kv)
  show ?case
  proof (cases "k \<in> set fields")
    case True
    have "modulo_diags (and_then (setattr_py bi k v (w, s)) (apply_kwargs bi kvs)) =
          modulo_diags (and_then (setattr_py bi k v (w, s)) (apply_kwargs bi (valid_kwargs kvs)))"
    proof (rule modulo_and_then [OF refl])
      fix w1 w2 :: "'a world" and s1 :: "'a obj"
      assume "without_diags w1 = without_diags w2"
      then have "modulo_diags (apply_kwargs bi kvs (w1, s1)) =
                 modulo_diags (apply_kwargs bi kvs (w2, s1))"
        by (rule modulo_apply_kwargs_world)
      also have "\<dots> = modulo_diags (apply_kwargs bi (valid_kwargs kvs) (w2, s1))"
        by (rule Cons.IH)
      finally show "modulo_diags (apply_kwargs bi kvs (w1, s1)) =
                    modulo_diags (apply_kwargs bi (valid_kwargs kvs) (w2, s1))" .
    qed
    with True kv show ?thesis by (simp add: valid_kwargs_def)
  next
    case False
    have "modulo_diags (apply_kwargs bi kvs (emit (Print (invalid_msg k)) w, s)) =
          modulo_diags (apply_kwargs bi kvs (w, s))"
      by (rule modulo_apply_kwargs_world) simp
    also have "\<dots> = modulo_diags (apply_kwargs bi (valid_kwargs kvs) (w, s))"
      by (rule Cons.IH)
    finally show ?thesis using False kv by (simp add: valid_kwargs_def)
  qed
qed

lemma setattr_field_dom:
  assumes "k \<in> set fields"
  shows "dom (snd (final (setattr_py bi k v (w, s)))) \<subseteq>
         dom s \<union> set stored_names \<union> (if k = ''filenameAtoms'' then {''_filenameAtoms''} else {})"
proof (cases "k = ''filenameAtoms''")
  case True
  have "{''cellDimX'', ''cellDimY'', ''cellDimZ''} \<subseteq> set stored_names"
    using core_stored by (simp add: core_names_def)
  then show ?thesis using True
    by (auto simp: setattr_py_def filenameAtoms_set_def setCellDims_def Let_def
        split: fopen.splits option.splits prod.splits if_splits)
next
  case False
  with assms have "k \<notin> set special_names" by (rule fields_properties)
  moreover from assms False have "k \<in> set stored_names" by (rule fields_stored)
  ultimately show ?thesis using False by (auto simp: setattr_plain)
qed

lemma apply_kwargs_attrs:
  assumes "dom s \<subseteq> set stored_names \<union> X"
    and "''filenameAtoms'' \<in> fst ` set kvs \<Longrightarrow> ''_filenameAtoms'' \<in> X"
  shows "dom (snd (final (apply_kwargs bi kvs (w, s)))) \<subseteq> set stored_names \<union> X"
  using assms
proof (induction kvs arbitrary: w s)
  case Nil
  then show ?case by simp
next
  case (Cons kv kvs)
  obtain k v where kv: "kv = (k, v)" by (cases kv)
  have X: "''filenameAtoms'' \<in> fst ` set kvs \<Longrightarrow> ''_filenameAtoms'' \<in> X"
    using Cons.prems(2) by auto
  show ?case
  proof (cases "k \<in> set fields")
    case False
    with kv Cons.IH [OF Cons.prems(1) X] show ?thesis by simp
  next
    case True
    let ?m = "setattr_py bi k v (w, s)"
    have "(if k = ''filenameAtoms'' then {''_filenameAtoms''} else {}) \<subseteq> X"
      using Cons.prems(2) kv by auto
    with setattr_field_dom [OF True, of bi v w s] Cons.prems(1)
    have d: "dom (snd (final ?m)) \<subseteq> set stored_names \<union> X" by blast
    show ?thesis
    proof (cases ?m)
      case (Return c)
      with d have "dom (snd c) \<subseteq> set stored_names \<union> X" by simp
      then have "dom (snd (final (apply_kwargs bi kvs (fst c, snd c)))) \<subseteq> set stored_names \<union> X"
        using X by (rule Cons.IH)
      with True kv Return show ?thesis by simp
    next
      case (Raised e c)
      with d True kv show ?thesis by simp
    qed
  qed
qed

lemma invalid_diag_emit:
  "filter invalid_diag (trace (emit ev w)) = filter invalid_diag (trace w) @ (if invalid_diag ev then [ev] else [])"
  by (simp add: emit_def)

lemma setattr_invalid_diag:
  "filter invalid_diag (trace (fst (final (setattr_py bi n v (w, s))))) = filter invalid_diag (trace w)"
proof -
  have lift: "\<And>f. fst (final (lift_obj f (w, s))) = w"
    subgoal for f by (cases "f s") (simp_all add: lift_obj_def)
    done
  have "filter invalid_diag (trace (fst (final (filenameAtoms_set bi v (w, s))))) =
        filter invalid_diag (trace w)"
    by (simp add: filenameAtoms_set_def setCellDims_def Let_def invalid_diag_emit invalid_diag_def
        split: fopen.splits option.splits prod.splits)
  then show ?thesis by (simp add: setattr_py_def lift)
qed

lemma apply_kwargs_diagnostics:
  "returns (apply_kwargs bi kvs (w, s)) \<Longrightarrow>
   filter invalid_diag (trace (fst (final (apply_kwargs bi kvs (w, s))))) =
     filter invalid_diag (trace w) @ map (\<lambda>k. Print (invalid_msg k)) (unknown_keys kvs)"
proof (induction kvs arbitrary: w s)
  case Nil
  show ?case by (simp add: unknown_keys_def)
next
  case (Cons kv kvs)
  obtain k v where kv: "kv = (k, v)" by (cases kv)
  show ?case
  proof (cases "k \<in> set fields")
    case False
    with Cons.prems kv have "returns (apply_kwargs bi kvs (emit (Print (invalid_msg k)) w, s))"
      by simp
    from Cons.IH [OF this] False kv show ?thesis
      by (simp add: unknown_keys_def invalid_diag_emit)
  next
    case True
    show ?thesis
    proof (cases "setattr_py bi k v (w, s)")
      case (Return c)
      with Cons.prems True kv have "returns (apply_kwargs bi kvs (fst c, snd c))" by simp
      from Cons.IH [OF this] setattr_invalid_diag [of bi k v w s] Return True kv
      show ?thesis by (simp add: unknown_keys_def)
    next
      case (Raised e c)
      with Cons.prems True kv show ?thesis by simp
    qed
  qed
qed

lemma valid_kwargs_self:
  "''self'' \<notin> fst ` set kwargs \<Longrightarrow> ''self'' \<notin> fst ` set (valid_kwargs kwargs)"
  by (auto simp: valid_kwargs_def)

text \<open>Claim C9, as amended. For keyword arguments none of which is named \<^verbatim>\<open>self\<close>: those whose
  key is not in \<^verbatim>\<open>Metadata.fields\<close> change nothing but the lines printed. Apart from the
  lines \<^verbatim>\<open>Invalid metaparameter ...\<close> in the trace, the outcome of \<^verbatim>\<open>__init__\<close> (whether it
  returns, the object, the files and every other event) is that of the construction with
  those arguments left out, so no construction fails because of them and none of them is
  stored. Every attribute of the result is one that the defaults of \<^verbatim>\<open>__init__\<close> store, or
  \<^verbatim>\<open>_filenameAtoms\<close> (the storage of the registered field \<^verbatim>\<open>filenameAtoms\<close>) when
  \<^verbatim>\<open>filenameAtoms\<close> is among the keys. When the construction returns, the lines
  \<^verbatim>\<open>Invalid metaparameter ...\<close> it printed are exactly one for each unknown key, in order.\<close>

theorem unknown_keys_ignored:
  assumes "''self'' \<notin> fst ` set kwargs"
  shows "modulo_diags (init bi seed kwargs w) = modulo_diags (init bi seed (valid_kwargs kwargs) w)
   \<and> dom (snd (final (init bi seed kwargs w))) \<subseteq>
       set stored_names \<union> (if ''filenameAtoms'' \<in> fst ` set kwargs then {''_filenameAtoms''} else {})
   \<and> (returns (init bi seed kwargs w) \<longrightarrow>
       filter invalid_diag (trace (fst (final (init bi seed kwargs w)))) =
         filter invalid_diag (trace w) @ map (\<lambda>k. Print (invalid_msg k)) (unknown_keys kwargs))"
proof (intro conjI impI)
  note body = init_body [OF assms] init_body [OF valid_kwargs_self [OF assms]]
  show "modulo_diags (init bi seed kwargs w) = modulo_diags (init bi seed (valid_kwargs kwargs) w)"
    by (simp only: body modulo_apply_kwargs_valid [of bi kwargs])
  show "dom (snd (final (init bi seed kwargs w))) \<subseteq>
       set stored_names \<union> (if ''filenameAtoms'' \<in> fst ` set kwargs then {''_filenameAtoms''} else {})"
    using apply_kwargs_attrs [of "fresh bi seed" "if ''filenameAtoms'' \<in> fst ` set kwargs then {''_filenameAtoms''} else {}" kwargs bi w]
    by (simp add: body fresh_dom)
  assume "returns (init bi seed kwargs w)"
  then show "filter invalid_diag (trace (fst (final (init bi seed kwargs w)))) =
         filter invalid_diag (trace w) @ map (\<lambda>k. Print (invalid_msg k)) (unknown_keys kwargs)"
    using apply_kwargs_diagnostics [of bi kwargs w "fresh bi seed"]
    by (simp add: body)
qed

lemma bogus_kwargs_return:
  "init text_floats 7 [(''bogus'', VInt 1), (''numFP'', VInt 3)] no_files =
     Return (emit (Print (invalid_msg ''bogus'')) no_files, (fresh text_floats 7)(''numFP'' \<mapsto> VInt 3))"
proof -
  have "''bogus'' \<notin> set fields" "''numFP'' \<in> set fields"
    by (simp_all add: fields_def)
  moreover have "''numFP'' \<notin> set special_names" by (simp add: special_names_def)
  ultimately show ?thesis
    by (simp add: init_def init_defaults setattr_plain)
qed

text \<open>A construction with one unknown key and one registered key.\<close>

theorem unknown_keys_ignored_witness:
  "''self'' \<notin> fst ` set [(''bogus'', VInt 1 :: string pyval), (''numFP'', VInt 3)]
   \<and> returns (init text_floats 7 [(''bogus'', VInt 1), (''numFP'', VInt 3)] no_files)
   \<and> modulo_diags (init text_floats 7 [(''bogus'', VInt 1), (''numFP'', VInt 3)] no_files) =
       modulo_diags (init text_floats 7 (valid_kwargs [(''bogus'', VInt 1), (''numFP'', VInt 3)]) no_files)
   \<and> snd (final (init text_floats 7 [(''bogus'', VInt 1), (''numFP'', VInt 3)] no_files)) =
       (fresh text_floats 7)(''numFP'' \<mapsto> VInt 3)
   \<and> filter invalid_diag (trace (fst (final (init text_floats 7 [(''bogus'', VInt 1), (''numFP'', VInt 3)] no_files)))) =
       filter invalid_diag (trace no_files) @
       map (\<lambda>k. Print (invalid_msg k)) (unknown_keys [(''bogus'', VInt 1 :: string pyval), (''numFP'', VInt 3)])"
proof -
  have s: "''self'' \<notin> fst ` set [(''bogus'', VInt 1 :: string pyval), (''numFP'', VInt 3)]"
    by simp
  have r: "returns (init text_floats 7 [(''bogus'', VInt 1), (''numFP'', VInt 3)] no_files)"
    by (simp add: bogus_kwargs_return)
  from unknown_keys_ignored [OF s, of text_floats 7 no_files] r s
  show ?thesis by (simp add: bogus_kwargs_return)
qed

text \<open>Claim C9 as stated fails for one unknown key: \<^verbatim>\<open>Metadata(**{"self": 1})\<close> raises
  \<^verbatim>\<open>TypeError\<close> when the arguments are bound to \<^verbatim>\<open>__init__(self, *args, **kwargs)\<close>, before
  the body and its check of the keys run.\<close>

theorem self_keyword_raises:
  "''self'' \<notin> set fields
   \<and> init text_floats 7 [(''self'', VInt 1)] no_files = Raised TypeError (no_files, Map.empty)"
  by (simp add: init_def fields_def)

end
